theory Spec2Isabelle
  imports Main "HOL-Library.Word"
begin

unbundle bit_operations_syntax

section \<open>Go values used by both packages\<close>

text \<open>
  Go's \<open>int\<close> is taken at its 64-bit width: a two's complement word whose \<open>+\<close> and
  \<open>-\<close> wrap, compared with the signed orders \<open>\<le>s\<close> and \<open><s\<close>. \<open>int32\<close> is a
  32-bit word; the conversion \<open>int32(x)\<close> keeps the low 32 bits (\<open>ucast\<close>) and
  \<open>int(y)\<close> of an \<open>int32\<close> extends the sign (\<open>scast\<close>).
\<close>

type_synonym goint = "64 word"
type_synonym int32 = "32 word"

text \<open>A panic is a value that carries its message.\<close>

datatype panic = Panic string

section \<open>Package image of the Go standard library\<close>

text \<open>
  \<open>image.Point\<close>, \<open>image.Rectangle\<close> and the functions of them that the package
  restorable calls: \<open>Rect\<close>, \<open>Dx\<close>, \<open>Dy\<close>, \<open>Empty\<close>, \<open>Intersect\<close>, and \<open>In\<close> of a
  point, which says which pixels a rectangle covers. The fields \<open>Min\<close> and \<open>Max\<close>
  are named \<open>Min_pt\<close> and \<open>Max_pt\<close> here.
\<close>

record Point =
  X :: goint
  Y :: goint

record Rectangle =
  Min_pt :: Point
  Max_pt :: Point

definition Pt :: "goint \<Rightarrow> goint \<Rightarrow> Point" where
  "Pt x y = \<lparr>X = x, Y = y\<rparr>"

text \<open>\<open>ZR\<close> is the zero rectangle, the zero value of the type.\<close>

definition ZR :: Rectangle where
  "ZR = \<lparr>Min_pt = Pt 0 0, Max_pt = Pt 0 0\<rparr>"

text \<open>\<open>Rect\<close> swaps the coordinates of an axis given in the wrong order.\<close>

definition Rect :: "goint \<Rightarrow> goint \<Rightarrow> goint \<Rightarrow> goint \<Rightarrow> Rectangle" where
  "Rect x0 y0 x1 y1 =
     (let (x0', x1') = (if x1 <s x0 then (x1, x0) else (x0, x1));
          (y0', y1') = (if y1 <s y0 then (y1, y0) else (y0, y1))
      in \<lparr>Min_pt = Pt x0' y0', Max_pt = Pt x1' y1'\<rparr>)"

definition Dx :: "Rectangle \<Rightarrow> goint" where
  "Dx r = X (Max_pt r) - X (Min_pt r)"

definition Dy :: "Rectangle \<Rightarrow> goint" where
  "Dy r = Y (Max_pt r) - Y (Min_pt r)"

definition Empty :: "Rectangle \<Rightarrow> bool" where
  "Empty r \<longleftrightarrow> X (Max_pt r) \<le>s X (Min_pt r) \<or> Y (Max_pt r) \<le>s Y (Min_pt r)"

definition In :: "Point \<Rightarrow> Rectangle \<Rightarrow> bool" where
  "In p r \<longleftrightarrow> X (Min_pt r) \<le>s X p \<and> X p <s X (Max_pt r) \<and>
              Y (Min_pt r) \<le>s Y p \<and> Y p <s Y (Max_pt r)"

text \<open>
  \<open>Intersect\<close> raises the minimum and lowers the maximum of \<open>r\<close> to those of \<open>s\<close>,
  one coordinate after the other, and returns \<open>ZR\<close> when what is left is empty.
\<close>

definition Intersect :: "Rectangle \<Rightarrow> Rectangle \<Rightarrow> Rectangle" where
  "Intersect r s =
     (let minx = (if X (Min_pt r) <s X (Min_pt s) then X (Min_pt s) else X (Min_pt r));
          miny = (if Y (Min_pt r) <s Y (Min_pt s) then Y (Min_pt s) else Y (Min_pt r));
          maxx = (if X (Max_pt s) <s X (Max_pt r) then X (Max_pt s) else X (Max_pt r));
          maxy = (if Y (Max_pt s) <s Y (Max_pt r) then Y (Max_pt s) else Y (Max_pt r));
          r' = \<lparr>Min_pt = Pt minx miny, Max_pt = Pt maxx maxy\<rparr>
      in if Empty r' then ZR else r')"

section \<open>Package restorable\<close>

subsection \<open>What the package asks of graphicsdriver, graphics and graphicscommand\<close>

text \<open>
  The packages graphicsdriver, graphics and graphicscommand are not among the
  sources. Of the blend modes and fill rules only the two constants that restorable
  names are known; every other value of the two types is folded into one constructor.
\<close>

datatype Blend = BlendClear | BlendOther nat

datatype FillRule = FillRuleFillAll | FillRuleOther nat

text \<open>
  One call of \<open>graphicscommand.Image.DrawTriangles\<close>, argument by argument in the
  order of the call. A source image is a pointer, \<open>None\<close> for nil, otherwise an
  identifier; a shader is a pointer as well. \<open>'f\<close> is the type of \<open>float32\<close>
  values.
\<close>

record 'f DrawTrianglesCall =
  dt_srcs :: "nat option list"
  dt_vertices :: "'f list"
  dt_indices :: "nat list"
  dt_blend :: Blend
  dt_dstRegion :: Rectangle
  dt_srcRegions :: "Rectangle list"
  dt_shader :: nat
  dt_uniforms :: "32 word list"
  dt_fillRule :: FillRule

text \<open>
  The functions and constants of the absent packages that restorable passes on
  without looking at them are parameters: every theorem below holds whatever they
  compute. \<open>float32\<close> is the conversion of an integer to \<open>float32\<close>, also used
  for the constant 0; \<open>QuadVerticesFromDstAndSrc\<close> takes the slice it fills and
  returns it filled; \<open>InternalImageSize_of\<close> is the size that
  \<open>graphics.InternalImageSize\<close> returns for a positive argument.
\<close>

record 'f graphics =
  InternalImageSize_of :: "goint \<Rightarrow> goint"
  float32 :: "int \<Rightarrow> 'f"
  VertexFloatCount :: nat
  ShaderSrcImageCount :: nat
  QuadVerticesFromDstAndSrc ::
    "'f list \<Rightarrow> 'f \<Rightarrow> 'f \<Rightarrow> 'f \<Rightarrow> 'f \<Rightarrow> 'f \<Rightarrow> 'f \<Rightarrow> 'f \<Rightarrow> 'f \<Rightarrow> 'f \<Rightarrow> 'f \<Rightarrow> 'f \<Rightarrow> 'f \<Rightarrow> 'f list"
  QuadIndices :: "nat list"
  clearShader_Shader :: nat

text \<open>
  Modelled from the spec: \<open>graphicscommand.Image\<close>, its constructor and its methods
  \<open>InternalSize\<close> and \<open>DrawTriangles\<close> are not among the sources. The command queue
  of the spec appends an operation and never executes it at once, so the image is
  what it was made with (width, height and the screen flag) and the sequence of
  \<open>DrawTriangles\<close> calls it has received, oldest first; a new image has received
  none. The constructor checks nothing.
\<close>

record 'f gcImage =
  gc_width :: goint
  gc_height :: goint
  gc_screen :: bool
  gc_draws :: "'f DrawTrianglesCall list"

definition gc_NewImage :: "goint \<Rightarrow> goint \<Rightarrow> bool \<Rightarrow> 'f gcImage" where
  "gc_NewImage w h screen =
     \<lparr>gc_width = w, gc_height = h, gc_screen = screen, gc_draws = []\<rparr>"

definition DrawTriangles :: "'f gcImage \<Rightarrow> 'f DrawTrianglesCall \<Rightarrow> 'f gcImage" where
  "DrawTriangles i call = i\<lparr>gc_draws := gc_draws i @ [call]\<rparr>"

text \<open>
  Modelled from the spec: the invariant that an image has a positive width and
  height once created is enforced where the internal size is computed.
  \<open>graphics.InternalImageSize\<close> panics with "graphics: x must be positive" on an
  argument that is not positive. \<open>InternalSize\<close> of a screen image is its width and
  height as they are; of any other image it is \<open>InternalImageSize\<close> of the width and
  of the height, in this order.
\<close>

definition InternalImageSize :: "'f graphics \<Rightarrow> goint \<Rightarrow> panic + goint" where
  "InternalImageSize G x =
     (if x \<le>s 0 then Inl (Panic ''graphics: x must be positive'')
      else Inr (InternalImageSize_of G x))"

definition InternalSize :: "'f graphics \<Rightarrow> 'f gcImage \<Rightarrow> panic + goint \<times> goint" where
  "InternalSize G i =
     (if gc_screen i then Inr (gc_width i, gc_height i)
      else (case InternalImageSize G (gc_width i) of
              Inl p \<Rightarrow> Inl p
            | Inr iw \<Rightarrow>
                (case InternalImageSize G (gc_height i) of
                   Inl p \<Rightarrow> Inl p
                 | Inr ih \<Rightarrow> Inr (iw, ih))))"

subsection \<open>Image, NewImage, clearImage, ClearPixels\<close>

text \<open>
  The struct \<open>Image\<close>: the pointer to the underlying image is followed, so a method
  that draws returns the image with its underlying image updated.
\<close>

record 'f Image =
  Image_ptr :: "'f gcImage"
  width :: goint
  height :: goint

definition clearImage :: "'f graphics \<Rightarrow> 'f gcImage \<Rightarrow> Rectangle \<Rightarrow> 'f gcImage" where
  "clearImage G i region =
     (let z = float32 G 0;
          vs = replicate (4 * VertexFloatCount G) z;
          vs' = QuadVerticesFromDstAndSrc G vs
                  (float32 G (sint (X (Min_pt region)))) (float32 G (sint (Y (Min_pt region))))
                  (float32 G (sint (X (Max_pt region)))) (float32 G (sint (Y (Max_pt region))))
                  z z z z z z z z;
          is = QuadIndices G
      in DrawTriangles i
           \<lparr>dt_srcs = replicate (ShaderSrcImageCount G) None,
            dt_vertices = vs',
            dt_indices = is,
            dt_blend = BlendClear,
            dt_dstRegion = region,
            dt_srcRegions = replicate (ShaderSrcImageCount G) ZR,
            dt_shader = clearShader_Shader G,
            dt_uniforms = [],
            dt_fillRule = FillRuleFillAll\<rparr>)"

text \<open>
  \<open>NewImage\<close> has no check of its own; a panic of \<open>InternalSize\<close> ends it before
  anything is drawn or returned.
\<close>

definition NewImage :: "'f graphics \<Rightarrow> goint \<Rightarrow> goint \<Rightarrow> bool \<Rightarrow> panic + 'f Image" where
  "NewImage G w h screen =
     (let i = \<lparr>Image_ptr = gc_NewImage w h screen, width = w, height = h\<rparr>
      in case InternalSize G (Image_ptr i) of
           Inl p \<Rightarrow> Inl p
         | Inr (iw, ih) \<Rightarrow>
             Inr (i\<lparr>Image_ptr := clearImage G (Image_ptr i) (Rect 0 0 iw ih)\<rparr>))"

definition ClearPixels :: "'f graphics \<Rightarrow> 'f Image \<Rightarrow> Rectangle \<Rightarrow> panic + 'f Image" where
  "ClearPixels G i region =
     (if Dx region \<le>s 0 \<or> Dy region \<le>s 0
      then Inl (Panic ''restorable: width/height must be positive'')
      else Inr (i\<lparr>Image_ptr :=
                  clearImage G (Image_ptr i)
                    (Intersect region (Rect 0 0 (width i) (height i)))\<rparr>))"

text \<open>A run of \<open>ClearPixels\<close> calls on one image stops at the first panic.\<close>

fun ClearPixels_all :: "'f graphics \<Rightarrow> 'f Image \<Rightarrow> Rectangle list \<Rightarrow> panic + 'f Image" where
  "ClearPixels_all G i [] = Inr i"
| "ClearPixels_all G i (r # rs) =
     (case ClearPixels G i r of Inl p \<Rightarrow> Inl p | Inr i' \<Rightarrow> ClearPixels_all G i' rs)"

text \<open>
  A caller that recovers from a panic and goes on finds the image as it was: the
  panic comes before anything is drawn.
\<close>

fun ClearPixels_recovered :: "'f graphics \<Rightarrow> 'f Image \<Rightarrow> Rectangle list \<Rightarrow> 'f Image" where
  "ClearPixels_recovered G i [] = i"
| "ClearPixels_recovered G i (r # rs) =
     (case ClearPixels G i r of
        Inl p \<Rightarrow> ClearPixels_recovered G i rs
      | Inr i' \<Rightarrow> ClearPixels_recovered G i' rs)"

subsection \<open>What the draws leave in the backing texture\<close>

text \<open>
  A pixel is four 8-bit channels, red, green, blue and alpha; the fully transparent
  one is all zero. The contents of a backing texture give a pixel to every position.
\<close>

type_synonym pixel = "8 word \<times> 8 word \<times> 8 word \<times> 8 word"

type_synonym pixels = "Point \<Rightarrow> pixel"

definition transparent :: pixel where
  "transparent = (0, 0, 0, 0)"

text \<open>
  Modelled from the spec: the driver that executes the queued draws is not among
  the sources. Clearing a region is drawing a fully transparent quad with the clear
  blend mode over it: such a draw leaves every pixel of its destination region fully
  transparent and every other pixel as it was. What a draw with another blend mode
  does is the parameter \<open>D\<close>. A flush executes the queued draws in the order of
  their submission, and a read-back flushes first; \<open>px\<close> is what the backing texture
  held when it was made, about which nothing is known.
\<close>

definition exec_draw ::
  "('f DrawTrianglesCall \<Rightarrow> pixels \<Rightarrow> pixels) \<Rightarrow> 'f DrawTrianglesCall \<Rightarrow> pixels \<Rightarrow> pixels" where
  "exec_draw D call px =
     (if dt_blend call = BlendClear
      then (\<lambda>p. if In p (dt_dstRegion call) then transparent else px p)
      else D call px)"

definition Flush ::
  "('f DrawTrianglesCall \<Rightarrow> pixels \<Rightarrow> pixels) \<Rightarrow> pixels \<Rightarrow> 'f DrawTrianglesCall list \<Rightarrow> pixels" where
  "Flush D px draws = foldl (\<lambda>px call. exec_draw D call px) px draws"

definition ReadPixels ::
  "('f DrawTrianglesCall \<Rightarrow> pixels \<Rightarrow> pixels) \<Rightarrow> pixels \<Rightarrow> 'f gcImage \<Rightarrow> pixels" where
  "ReadPixels D px i = Flush D px (gc_draws i)"

section \<open>Package graphics: framebuffer.go\<close>

subsection \<open>The driver and the absent parts of the package\<close>

text \<open>A Go \<open>error\<close> value; \<open>nil\<close> is \<open>None\<close> of \<open>error option\<close>.\<close>

datatype error = Error string

text \<open>
  Every call that framebuffer.go makes on the driver: the methods of
  \<open>opengl.Context\<close> and the package's own \<open>drawTexture\<close>, which is in another
  file and issues the draw. Framebuffers and textures of the driver are handles,
  zero for the zero value of their types. \<open>'r\<close> is the type of \<open>float64\<close>
  values, \<open>'q\<close> that of \<open>TextureQuads\<close>, \<open>'m\<close> that of \<open>Matrix\<close>; a
  composite mode is an integer.
\<close>

datatype ('r, 'q, 'm) call =
    NewFramebuffer nat
  | DeleteFramebuffer nat
  | SetViewport nat goint goint
  | FillFramebuffer 'r 'r 'r 'r
  | FramebufferPixels nat goint goint
  | drawTexture nat "'r list list" 'q 'm 'm int

text \<open>
  The context is the driver's state as this package sees it: the calls made so far,
  oldest first, and what the driver answers to the next call after a given history
  (its error, the framebuffer it makes, the pixels it reads back). Nothing is
  assumed about the answers.
\<close>

record ('r, 'q, 'm) Context =
  calls :: "('r, 'q, 'm) call list"
  err_of :: "('r, 'q, 'm) call list \<Rightarrow> ('r, 'q, 'm) call \<Rightarrow> error option"
  framebuffer_of :: "('r, 'q, 'm) call list \<Rightarrow> ('r, 'q, 'm) call \<Rightarrow> nat"
  pixels_of :: "('r, 'q, 'm) call list \<Rightarrow> ('r, 'q, 'm) call \<Rightarrow> 8 word list"

definition driver_call ::
  "('r, 'q, 'm) Context \<Rightarrow> ('r, 'q, 'm) call \<Rightarrow> error option \<times> ('r, 'q, 'm) Context" where
  "driver_call c k = (err_of c (calls c) k, c\<lparr>calls := calls c @ [k]\<rparr>)"

text \<open>
  Modelled from the spec: \<open>NextPowerOf2Int32\<close> is in another file of the package,
  not among the sources. It is to return the next power of two at or above its
  argument. On \<open>int32\<close> that is computed without a loop: the argument is lowered by
  one, its highest set bit is copied into every lower position by five shifts to
  the right, each or-ed into the value, and one is added. The shift of a signed
  integer keeps the sign.
\<close>

definition NextPowerOf2Int32 :: "int32 \<Rightarrow> int32" where
  "NextPowerOf2Int32 x =
     (let x1 = x - 1;
          x2 = x1 OR signed_drop_bit 1 x1;
          x3 = x2 OR signed_drop_bit 2 x2;
          x4 = x3 OR signed_drop_bit 4 x3;
          x5 = x4 OR signed_drop_bit 8 x4;
          x6 = x5 OR signed_drop_bit 16 x5
      in x6 + 1)"

text \<open>
  What else the file uses without defining it is a parameter:
  \<open>opengl.ZeroFramebuffer\<close> and \<open>float64\<close> arithmetic (\<open>float64\<close> converts an
  integer or writes a constant, \<open>fdiv\<close>, \<open>fmul\<close> and \<open>fadd\<close> are \<open>/\<close>, \<open>*\<close> and
  \<open>+\<close>).
\<close>

record 'r externals =
  ZeroFramebuffer :: nat
  float64 :: "int \<Rightarrow> 'r"
  fdiv :: "'r \<Rightarrow> 'r \<Rightarrow> 'r"
  fmul :: "'r \<Rightarrow> 'r \<Rightarrow> 'r"
  fadd :: "'r \<Rightarrow> 'r \<Rightarrow> 'r"

text \<open>A \<open>color.Color\<close> is what its method \<open>RGBA\<close> returns: four \<open>uint32\<close>.\<close>

type_synonym Color = "32 word \<times> 32 word \<times> 32 word \<times> 32 word"

text \<open>A \<open>Texture\<close> of the package is its driver handle and what \<open>Size\<close> returns.\<close>

record Texture =
  tex_native :: nat
  tex_size :: "goint \<times> goint"

subsection \<open>orthoProjectionMatrix and Framebuffer\<close>

definition orthoProjectionMatrix ::
  "'r externals \<Rightarrow> goint \<Rightarrow> goint \<Rightarrow> goint \<Rightarrow> goint \<Rightarrow> 'r list list" where
  "orthoProjectionMatrix E left right bottom top' =
     (let e11 = fdiv E (float64 E 2) (float64 E (sint (right - left)));
          e22 = fdiv E (float64 E 2) (float64 E (sint (top' - bottom)));
          e14 = fdiv E (fmul E (float64 E (- 1)) (float64 E (sint (right + left))))
                       (float64 E (sint (right - left)));
          e24 = fdiv E (fmul E (float64 E (- 1)) (float64 E (sint (top' + bottom))))
                       (float64 E (sint (top' - bottom)))
      in [[e11, float64 E 0, float64 E 0, e14],
          [float64 E 0, e22, float64 E 0, e24],
          [float64 E 0, float64 E 0, float64 E 1, float64 E 0],
          [float64 E 0, float64 E 0, float64 E 0, float64 E 1]])"

record 'r Framebuffer =
  native :: nat
  width :: goint
  height :: goint
  flipY :: bool
  proMatrix :: "'r list list option"

definition NewZeroFramebuffer ::
  "('r, 'q, 'm) Context \<Rightarrow> goint \<Rightarrow> goint \<Rightarrow> 'r Framebuffer option \<times> error option" where
  "NewZeroFramebuffer c w h =
     (Some \<lparr>native = 0, width = w, height = h, flipY = True, proMatrix = None\<rparr>, None)"

definition NewFramebufferFromTexture ::
  "('r, 'q, 'm) Context \<Rightarrow> Texture \<Rightarrow>
     ('r Framebuffer option \<times> error option) \<times> ('r, 'q, 'm) Context" where
  "NewFramebufferFromTexture c texture =
     (let k = NewFramebuffer (tex_native texture);
          f = framebuffer_of c (calls c) k;
          (err, c') = driver_call c k
      in case err of
           Some e \<Rightarrow> ((None, Some e), c')
         | None \<Rightarrow>
             (let (w, h) = tex_size texture
              in ((Some \<lparr>native = f, width = w, height = h, flipY = False, proMatrix = None\<rparr>,
                   None), c')))"

definition Size :: "'r Framebuffer \<Rightarrow> goint \<times> goint" where
  "Size f = (width f, height f)"

definition Dispose ::
  "'r externals \<Rightarrow> ('r, 'q, 'm) Context \<Rightarrow> 'r Framebuffer \<Rightarrow> ('r, 'q, 'm) Context" where
  "Dispose E c f =
     (if native f = ZeroFramebuffer E then c
      else snd (driver_call c (DeleteFramebuffer (native f))))"

definition setAsViewport ::
  "'r externals \<Rightarrow> ('r, 'q, 'm) Context \<Rightarrow> 'r Framebuffer \<Rightarrow>
     error option \<times> ('r, 'q, 'm) Context" where
  "setAsViewport E c f =
     (let w = scast (NextPowerOf2Int32 (ucast (width f)));
          h = scast (NextPowerOf2Int32 (ucast (height f)))
      in driver_call c (SetViewport (native f) w h))"

text \<open>
  The matrix is a pointer to an array of four rows of four; an element is read with
  \<open>m ! i ! j\<close> and written with \<open>set_elem\<close>, both within range wherever they are
  used. \<open>projectionMatrix\<close> writes the field of its receiver, so it returns the
  framebuffer too.
\<close>

definition set_elem :: "'r list list \<Rightarrow> nat \<Rightarrow> nat \<Rightarrow> 'r \<Rightarrow> 'r list list" where
  "set_elem m i j v = m[i := (m ! i)[j := v]]"

definition projectionMatrix ::
  "'r externals \<Rightarrow> 'r Framebuffer \<Rightarrow> 'r list list \<times> 'r Framebuffer" where
  "projectionMatrix E f =
     (case proMatrix f of
        Some p \<Rightarrow> (p, f)
      | None \<Rightarrow>
          (let w = scast (NextPowerOf2Int32 (ucast (width f)));
               h = scast (NextPowerOf2Int32 (ucast (height f)));
               m = orthoProjectionMatrix E 0 w 0 h;
               m' = (if flipY f
                     then (let m1 = set_elem m 1 1 (fmul E (m ! 1 ! 1) (float64 E (- 1)))
                           in set_elem m1 1 3
                                (fadd E (m1 ! 1 ! 3)
                                   (fmul E
                                      (fdiv E (float64 E (sint (height f)))
                                         (float64 E (sint (NextPowerOf2Int32 (ucast (height f))))))
                                      (float64 E 2))))
                     else m)
           in (m', f\<lparr>proMatrix := Some m'\<rparr>)))"

definition Fill ::
  "'r externals \<Rightarrow> ('r, 'q, 'm) Context \<Rightarrow> 'r Framebuffer \<Rightarrow> Color \<Rightarrow>
     error option \<times> ('r, 'q, 'm) Context" where
  "Fill E c f clr =
     (case setAsViewport E c f of
        (Some err, c') \<Rightarrow> (Some err, c')
      | (None, c') \<Rightarrow>
          (let (cr, cg, cb, ca) = clr;
               max16 = float64 E 65535;
               r = fdiv E (float64 E (uint cr)) max16;
               g = fdiv E (float64 E (uint cg)) max16;
               b = fdiv E (float64 E (uint cb)) max16;
               a = fdiv E (float64 E (uint ca)) max16
           in driver_call c' (FillFramebuffer r g b a)))"

definition DrawTexture ::
  "'r externals \<Rightarrow> ('r, 'q, 'm) Context \<Rightarrow> 'r Framebuffer \<Rightarrow> Texture \<Rightarrow> 'q \<Rightarrow> 'm \<Rightarrow> 'm \<Rightarrow> int \<Rightarrow>
     error option \<times> ('r, 'q, 'm) Context \<times> 'r Framebuffer" where
  "DrawTexture E c f t quads geo clr mode =
     (case setAsViewport E c f of
        (Some err, c') \<Rightarrow> (Some err, c', f)
      | (None, c') \<Rightarrow>
          (let (p, f') = projectionMatrix E f;
               (err, c'') = driver_call c' (drawTexture (tex_native t) p quads geo clr mode)
           in (err, c'', f')))"

definition Pixels ::
  "'r externals \<Rightarrow> ('r, 'q, 'm) Context \<Rightarrow> 'r Framebuffer \<Rightarrow>
     (8 word list \<times> error option) \<times> ('r, 'q, 'm) Context" where
  "Pixels E c f =
     (let (w, h) = Size f;
          w' = scast (NextPowerOf2Int32 (ucast w));
          h' = scast (NextPowerOf2Int32 (ucast h));
          k = FramebufferPixels (native f) w' h';
          (err, c') = driver_call c k
      in ((pixels_of c (calls c) k, err), c'))"

subsection \<open>Sequences of calls on one framebuffer\<close>

text \<open>
  A caller may invoke the methods in any order and goes on after an error, which is
  a returned value. A step keeps the context and the framebuffer and drops what the
  method returns.
\<close>

datatype ('q, 'm) fb_op =
    Op_Size
  | Op_Dispose
  | Op_setAsViewport
  | Op_projectionMatrix
  | Op_Fill Color
  | Op_DrawTexture Texture 'q 'm 'm int
  | Op_Pixels

fun fb_step ::
  "'r externals \<Rightarrow> ('r, 'q, 'm) Context \<times> 'r Framebuffer \<Rightarrow> ('q, 'm) fb_op \<Rightarrow>
     ('r, 'q, 'm) Context \<times> 'r Framebuffer" where
  "fb_step E (c, f) Op_Size = (c, f)"
| "fb_step E (c, f) Op_Dispose = (Dispose E c f, f)"
| "fb_step E (c, f) Op_setAsViewport = (snd (setAsViewport E c f), f)"
| "fb_step E (c, f) Op_projectionMatrix = (c, snd (projectionMatrix E f))"
| "fb_step E (c, f) (Op_Fill clr) = (snd (Fill E c f clr), f)"
| "fb_step E (c, f) (Op_DrawTexture t quads geo clr mode) =
     snd (DrawTexture E c f t quads geo clr mode)"
| "fb_step E (c, f) Op_Pixels = (snd (Pixels E c f), f)"

definition fb_run ::
  "'r externals \<Rightarrow> ('r, 'q, 'm) Context \<times> 'r Framebuffer \<Rightarrow> ('q, 'm) fb_op list \<Rightarrow>
     ('r, 'q, 'm) Context \<times> 'r Framebuffer" where
  "fb_run E s ops = foldl (fb_step E) s ops"

section \<open>Concrete collaborators for the examples\<close>

text \<open>
  The examples need values for the parameters. For restorable: \<open>float32\<close> values
  are the integers they were converted from, the internal size of a dimension is
  the next power of two at or above it and at least 16, and a quad is four vertices
  of eight floats each (destination, source, colour).
\<close>

definition example_graphics :: "int graphics" where
  "example_graphics =
     \<lparr>InternalImageSize_of =
        (\<lambda>x. if x <s 16 then 16 else scast (NextPowerOf2Int32 (ucast x))),
      float32 = (\<lambda>n. n),
      VertexFloatCount = 8,
      ShaderSrcImageCount = 4,
      QuadVerticesFromDstAndSrc = (\<lambda>dst dx0 dy0 dx1 dy1 sx0 sy0 sx1 sy1 cr cg cb ca.
        [dx0, dy0, sx0, sy0, cr, cg, cb, ca,
         dx1, dy0, sx1, sy0, cr, cg, cb, ca,
         dx0, dy1, sx0, sy1, cr, cg, cb, ca,
         dx1, dy1, sx1, sy1, cr, cg, cb, ca]),
      QuadIndices = [0, 1, 2, 1, 2, 3],
      clearShader_Shader = 1\<rparr>"

text \<open>
  The image that \<open>NewImage\<close> returns for 10 by 10 and no screen: its internal size
  is 16 by 16, and one clear draw over that is queued.
\<close>

definition example_image :: "int Image" where
  "example_image =
     \<lparr>Image_ptr =
        \<lparr>gc_width = 10, gc_height = 10, gc_screen = False,
         gc_draws =
           [\<lparr>dt_srcs = [None, None, None, None],
             dt_vertices =
               [0, 0, 0, 0, 0, 0, 0, 0, 16, 0, 0, 0, 0, 0, 0, 0,
                0, 16, 0, 0, 0, 0, 0, 0, 16, 16, 0, 0, 0, 0, 0, 0],
             dt_indices = [0, 1, 2, 1, 2, 3],
             dt_blend = BlendClear,
             dt_dstRegion = \<lparr>Min_pt = Pt 0 0, Max_pt = Pt 16 16\<rparr>,
             dt_srcRegions = [ZR, ZR, ZR, ZR],
             dt_shader = 1,
             dt_uniforms = [],
             dt_fillRule = FillRuleFillAll\<rparr>]\<rparr>,
      width = 10, height = 10\<rparr>"

text \<open>
  For framebuffer.go: \<open>float64\<close> values are the expressions that compute them,
  left unevaluated.
\<close>

datatype f64_term =
    FConst int
  | FDiv f64_term f64_term
  | FMul f64_term f64_term
  | FAdd f64_term f64_term

definition example_externals :: "f64_term externals" where
  "example_externals =
     \<lparr>ZeroFramebuffer = 0,
      float64 = FConst,
      fdiv = FDiv,
      fmul = FMul,
      fadd = FAdd\<rparr>"

text \<open>
  A driver with no calls behind it that hands out fresh framebuffer handles and
  reads back no pixels; with \<open>fail\<close> set, every \<open>SetViewport\<close> returns an error.
\<close>

definition example_context :: "bool \<Rightarrow> (f64_term, nat, nat) Context" where
  "example_context fail =
     \<lparr>calls = [],
      err_of = (\<lambda>h k. case k of
                  SetViewport n w h \<Rightarrow> if fail then Some (Error ''context lost'') else None
                | _ \<Rightarrow> None),
      framebuffer_of = (\<lambda>h k. Suc (length h)),
      pixels_of = (\<lambda>h k. [])\<rparr>"

text \<open>
  The framebuffer that \<open>NewZeroFramebuffer\<close> returns for 100 by 60, a texture of
  that size, and the projection matrix of that framebuffer: 128 by 64 is its backing
  size.
\<close>

definition example_framebuffer :: "f64_term Framebuffer" where
  "example_framebuffer =
     \<lparr>native = 0, width = 100, height = 60, flipY = True, proMatrix = None\<rparr>"

text \<open>The framebuffer that \<open>NewZeroFramebuffer\<close> returns for a width of 2^31.\<close>

definition wide_framebuffer :: "f64_term Framebuffer" where
  "wide_framebuffer =
     \<lparr>native = 0, width = 2147483648, height = 1, flipY = True, proMatrix = None\<rparr>"

definition example_texture :: Texture where
  "example_texture = \<lparr>tex_native = 3, tex_size = (100, 60)\<rparr>"

definition example_matrix :: "f64_term list list" where
  "example_matrix =
     [[FDiv (FConst 2) (FConst 128), FConst 0, FConst 0,
       FDiv (FMul (FConst (- 1)) (FConst 128)) (FConst 128)],
      [FConst 0, FMul (FDiv (FConst 2) (FConst 64)) (FConst (- 1)), FConst 0,
       FAdd (FDiv (FMul (FConst (- 1)) (FConst 64)) (FConst 64))
            (FMul (FDiv (FConst 60) (FConst 64)) (FConst 2))],
      [FConst 0, FConst 0, FConst 1, FConst 0],
      [FConst 0, FConst 0, FConst 0, FConst 1]]"

section \<open>Rectangles\<close>

lemmas sword = word_sle_eq word_sless_alt

lemma not_sle_iff: "\<not> (a \<le>s b) \<longleftrightarrow> b <s a"
  by (auto simp: sword)

lemma Empty_ZR: "Empty ZR"
  by (simp add: Empty_def ZR_def Pt_def)

lemma not_In_ZR: "\<not> In p ZR"
  by (simp add: In_def ZR_def Pt_def sword)

text \<open>
  The rectangle that \<open>Intersect\<close> returns covers exactly the pixels that both
  rectangles cover.
\<close>

lemma Intersect_In: "In p (Intersect r s) \<longleftrightarrow> In p r \<and> In p s"
proof (cases "Empty
    \<lparr>Min_pt = Pt (if X (Min_pt r) <s X (Min_pt s) then X (Min_pt s) else X (Min_pt r))
                   (if Y (Min_pt r) <s Y (Min_pt s) then Y (Min_pt s) else Y (Min_pt r)),
     Max_pt = Pt (if X (Max_pt s) <s X (Max_pt r) then X (Max_pt s) else X (Max_pt r))
                   (if Y (Max_pt s) <s Y (Max_pt r) then Y (Max_pt s) else Y (Max_pt r))\<rparr>")
  case True
  then have "Intersect r s = ZR"
    by (simp add: Intersect_def Let_def)
  moreover from True have "\<not> (In p r \<and> In p s)"
    by (auto simp: Empty_def In_def Pt_def sword split: if_splits)
  ultimately show ?thesis
    by (simp add: not_In_ZR)
next
  case False
  then show ?thesis
    by (auto simp: Intersect_def Let_def In_def Pt_def sword split: if_splits)
qed

lemma Intersect_Empty_iff: "Empty (Intersect r s) \<longleftrightarrow> Intersect r s = ZR"
  by (auto simp: Intersect_def Let_def Empty_ZR)

lemma Rect_16: "Rect 0 0 16 16 = \<lparr>Min_pt = Pt 0 0, Max_pt = Pt 16 16\<rparr>"
  by (simp add: Rect_def sword)

lemma NewImage_example: "NewImage example_graphics 10 10 False = Inr example_image"
  by (simp add: NewImage_def InternalSize_def InternalImageSize_def gc_NewImage_def
        clearImage_def DrawTriangles_def Let_def Rect_16 Pt_def sword)
     (simp add: example_graphics_def example_image_def Rect_16 Pt_def eval_nat_numeral sword)

lemma example_image_fields:
  "Image.width example_image = 10"
  "Image.height example_image = 10"
  "map dt_dstRegion (gc_draws (Image_ptr example_image)) = [Rect 0 0 16 16]"
  "map dt_blend (gc_draws (Image_ptr example_image)) = [BlendClear]"
  by (simp_all add: example_image_def Rect_16)

section \<open>ClearPixels on a region of positive size\<close>

text \<open>
  C2. For a region of positive width and height, \<open>ClearPixels\<close> does not panic and
  makes one \<open>DrawTriangles\<close> call on the underlying image: no source images (every
  slot nil), the vertices that \<open>QuadVerticesFromDstAndSrc\<close> writes for the corners
  of the clipped region with all source coordinates and all four colour components
  zero, the quad indices, the blend mode \<open>BlendClear\<close>, and the clipped region as
  destination. The clipped region is the region intersected with the image's
  bounds: it covers exactly the pixels that lie in both.
\<close>

theorem ClearPixels_draws_clear_quad:
  "0 <s Dx region \<and> 0 <s Dy region \<longrightarrow>
     (let clip = Intersect region (Rect 0 0 (Image.width i) (Image.height i)) in
      ClearPixels G i region =
        Inr (i\<lparr>Image_ptr := DrawTriangles (Image_ptr i)
               \<lparr>dt_srcs = replicate (ShaderSrcImageCount G) None,
                dt_vertices =
                  QuadVerticesFromDstAndSrc G
                    (replicate (4 * VertexFloatCount G) (float32 G 0))
                    (float32 G (sint (X (Min_pt clip)))) (float32 G (sint (Y (Min_pt clip))))
                    (float32 G (sint (X (Max_pt clip)))) (float32 G (sint (Y (Max_pt clip))))
                    (float32 G 0) (float32 G 0) (float32 G 0) (float32 G 0)
                    (float32 G 0) (float32 G 0) (float32 G 0) (float32 G 0),
                dt_indices = QuadIndices G,
                dt_blend = BlendClear,
                dt_dstRegion = clip,
                dt_srcRegions = replicate (ShaderSrcImageCount G) ZR,
                dt_shader = clearShader_Shader G,
                dt_uniforms = [],
                dt_fillRule = FillRuleFillAll\<rparr>\<rparr>) \<and>
      (\<forall>p. In p clip \<longleftrightarrow>
             In p region \<and> In p (Rect 0 0 (Image.width i) (Image.height i))))"
  by (simp add: ClearPixels_def clearImage_def Let_def not_sle_iff [symmetric] Intersect_In)

theorem ClearPixels_draws_clear_quad_witness:
  "NewImage example_graphics 10 10 False = Inr example_image \<and>
   0 <s Dx (Rect 5 5 30 30) \<and> 0 <s Dy (Rect 5 5 30 30) \<and>
   (case ClearPixels example_graphics example_image (Rect 5 5 30 30) of
      Inl p \<Rightarrow> False
    | Inr i' \<Rightarrow>
        map dt_dstRegion (gc_draws (Image_ptr i')) = [Rect 0 0 16 16, Rect 5 5 10 10] \<and>
        map dt_blend (gc_draws (Image_ptr i')) = [BlendClear, BlendClear] \<and>
        dt_srcs (last (gc_draws (Image_ptr i'))) = [None, None, None, None] \<and>
        dt_indices (last (gc_draws (Image_ptr i'))) = [0, 1, 2, 1, 2, 3] \<and>
        dt_vertices (last (gc_draws (Image_ptr i'))) =
          [5, 5, 0, 0, 0, 0, 0, 0, 10, 5, 0, 0, 0, 0, 0, 0,
           5, 10, 0, 0, 0, 0, 0, 0, 10, 10, 0, 0, 0, 0, 0, 0])"
proof -
  have h: "0 <s Dx (Rect 5 5 30 30) \<and> 0 <s Dy (Rect 5 5 30 30)"
    by (simp add: Rect_def Dx_def Dy_def Pt_def sword)
  have c: "Intersect (Rect 5 5 30 30) (Rect 0 0 10 10) = Rect 5 5 10 10"
    by (simp add: Rect_def Intersect_def Pt_def Empty_def sword)
  have r: "Rect 5 5 10 10 = \<lparr>Min_pt = Pt 5 5, Max_pt = Pt 10 10\<rparr>"
    by (simp add: Rect_def sword)
  from ClearPixels_draws_clear_quad
         [where region = "Rect 5 5 30 30" and i = example_image and G = example_graphics] h
  have "ClearPixels example_graphics example_image (Rect 5 5 30 30) =
          Inr (example_image\<lparr>Image_ptr := DrawTriangles (Image_ptr example_image)
               \<lparr>dt_srcs = replicate (ShaderSrcImageCount example_graphics) None,
                dt_vertices =
                  QuadVerticesFromDstAndSrc example_graphics
                    (replicate (4 * VertexFloatCount example_graphics) (float32 example_graphics 0))
                    (float32 example_graphics 5) (float32 example_graphics 5)
                    (float32 example_graphics 10) (float32 example_graphics 10)
                    (float32 example_graphics 0) (float32 example_graphics 0)
                    (float32 example_graphics 0) (float32 example_graphics 0)
                    (float32 example_graphics 0) (float32 example_graphics 0)
                    (float32 example_graphics 0) (float32 example_graphics 0),
                dt_indices = QuadIndices example_graphics,
                dt_blend = BlendClear,
                dt_dstRegion = Rect 5 5 10 10,
                dt_srcRegions = replicate (ShaderSrcImageCount example_graphics) ZR,
                dt_shader = clearShader_Shader example_graphics,
                dt_uniforms = [],
                dt_fillRule = FillRuleFillAll\<rparr>\<rparr>)"
    by (simp add: Let_def example_image_fields c) (simp add: r Pt_def)
  then have "case ClearPixels example_graphics example_image (Rect 5 5 30 30) of
      Inl p \<Rightarrow> False
    | Inr i' \<Rightarrow>
        map dt_dstRegion (gc_draws (Image_ptr i')) = [Rect 0 0 16 16, Rect 5 5 10 10] \<and>
        map dt_blend (gc_draws (Image_ptr i')) = [BlendClear, BlendClear] \<and>
        dt_srcs (last (gc_draws (Image_ptr i'))) = [None, None, None, None] \<and>
        dt_indices (last (gc_draws (Image_ptr i'))) = [0, 1, 2, 1, 2, 3] \<and>
        dt_vertices (last (gc_draws (Image_ptr i'))) =
          [5, 5, 0, 0, 0, 0, 0, 0, 10, 5, 0, 0, 0, 0, 0, 0,
           5, 10, 0, 0, 0, 0, 0, 0, 10, 10, 0, 0, 0, 0, 0, 0]"
    by (simp add: DrawTriangles_def example_image_fields)
       (simp add: example_graphics_def eval_nat_numeral)
  with NewImage_example h show ?thesis
    by blast
qed

section \<open>ClearPixels on a region that leaves nothing to clear\<close>

text \<open>
  A region of zero width and height has an empty intersection with the bounds of a
  10 by 10 image, and \<open>ClearPixels\<close> panics on it: the check of the region's own
  size comes before the clipping.
\<close>

theorem ClearPixels_empty_region_counterexample:
  "NewImage example_graphics 10 10 False = Inr example_image \<and>
   Empty (Intersect (Rect 3 3 3 3)
            (Rect 0 0 (Image.width example_image) (Image.height example_image))) \<and>
   ClearPixels example_graphics example_image (Rect 3 3 3 3) =
     Inl (Panic ''restorable: width/height must be positive'')"
  by (simp add: NewImage_example example_image_fields ClearPixels_def Rect_def Dx_def Dy_def
        Pt_def Intersect_def Empty_def ZR_def sword)

text \<open>
  C1, as the code has it. \<open>ClearPixels\<close> panics with the message
  "restorable: width/height must be positive" when the width or the height of the
  region itself is not positive. For a region of positive width and height whose
  intersection with the image's bounds is empty, it signals no error, clips, and
  sends the underlying image one clear draw whose destination is the zero rectangle
  and whose quad is built from zeros only.
\<close>

theorem ClearPixels_empty_clip:
  "(Dx region \<le>s 0 \<or> Dy region \<le>s 0 \<longrightarrow>
      ClearPixels G i region = Inl (Panic ''restorable: width/height must be positive'')) \<and>
   (0 <s Dx region \<and> 0 <s Dy region \<and>
    Empty (Intersect region (Rect 0 0 (Image.width i) (Image.height i))) \<longrightarrow>
      ClearPixels G i region =
        Inr (i\<lparr>Image_ptr := (Image_ptr i)\<lparr>gc_draws := gc_draws (Image_ptr i) @
               [\<lparr>dt_srcs = replicate (ShaderSrcImageCount G) None,
                 dt_vertices =
                   QuadVerticesFromDstAndSrc G
                     (replicate (4 * VertexFloatCount G) (float32 G 0))
                     (float32 G 0) (float32 G 0) (float32 G 0) (float32 G 0)
                     (float32 G 0) (float32 G 0) (float32 G 0) (float32 G 0)
                     (float32 G 0) (float32 G 0) (float32 G 0) (float32 G 0),
                 dt_indices = QuadIndices G,
                 dt_blend = BlendClear,
                 dt_dstRegion = ZR,
                 dt_srcRegions = replicate (ShaderSrcImageCount G) ZR,
                 dt_shader = clearShader_Shader G,
                 dt_uniforms = [],
                 dt_fillRule = FillRuleFillAll\<rparr>]\<rparr>\<rparr>))"
proof (intro conjI impI)
  assume "Dx region \<le>s 0 \<or> Dy region \<le>s 0"
  then show "ClearPixels G i region = Inl (Panic ''restorable: width/height must be positive'')"
    by (simp add: ClearPixels_def)
next
  assume a: "0 <s Dx region \<and> 0 <s Dy region \<and>
    Empty (Intersect region (Rect 0 0 (Image.width i) (Image.height i)))"
  then have z: "Intersect region (Rect 0 0 (Image.width i) (Image.height i)) = ZR"
    by (simp add: Intersect_Empty_iff)
  from a have p: "\<not> (Dx region \<le>s 0 \<or> Dy region \<le>s 0)"
    by (simp add: not_sle_iff)
  show "ClearPixels G i region =
        Inr (i\<lparr>Image_ptr := (Image_ptr i)\<lparr>gc_draws := gc_draws (Image_ptr i) @
               [\<lparr>dt_srcs = replicate (ShaderSrcImageCount G) None,
                 dt_vertices =
                   QuadVerticesFromDstAndSrc G
                     (replicate (4 * VertexFloatCount G) (float32 G 0))
                     (float32 G 0) (float32 G 0) (float32 G 0) (float32 G 0)
                     (float32 G 0) (float32 G 0) (float32 G 0) (float32 G 0)
                     (float32 G 0) (float32 G 0) (float32 G 0) (float32 G 0),
                 dt_indices = QuadIndices G,
                 dt_blend = BlendClear,
                 dt_dstRegion = ZR,
                 dt_srcRegions = replicate (ShaderSrcImageCount G) ZR,
                 dt_shader = clearShader_Shader G,
                 dt_uniforms = [],
                 dt_fillRule = FillRuleFillAll\<rparr>]\<rparr>\<rparr>)"
    using p by (simp add: ClearPixels_def z clearImage_def DrawTriangles_def Let_def)
      (simp add: ZR_def Pt_def)
qed

theorem ClearPixels_empty_clip_witness:
  "NewImage example_graphics 10 10 False = Inr example_image \<and>
   (Dx (Rect 3 3 3 3) \<le>s 0 \<or> Dy (Rect 3 3 3 3) \<le>s 0) \<and>
   ClearPixels example_graphics example_image (Rect 3 3 3 3) =
     Inl (Panic ''restorable: width/height must be positive'') \<and>
   0 <s Dx (Rect 20 20 30 30) \<and> 0 <s Dy (Rect 20 20 30 30) \<and>
   Empty (Intersect (Rect 20 20 30 30) (Rect 0 0 10 10)) \<and>
   (case ClearPixels example_graphics example_image (Rect 20 20 30 30) of
      Inl p \<Rightarrow> False
    | Inr i' \<Rightarrow>
        map dt_dstRegion (gc_draws (Image_ptr i')) = [Rect 0 0 16 16, ZR] \<and>
        dt_vertices (last (gc_draws (Image_ptr i'))) = replicate 32 0)"
proof -
  have h1: "Dx (Rect 3 3 3 3) \<le>s 0 \<or> Dy (Rect 3 3 3 3) \<le>s 0"
    by (simp add: Rect_def Dx_def Dy_def Pt_def sword)
  have h2: "0 <s Dx (Rect 20 20 30 30) \<and> 0 <s Dy (Rect 20 20 30 30) \<and>
            Empty (Intersect (Rect 20 20 30 30) (Rect 0 0 10 10))"
    by (simp add: Rect_def Dx_def Dy_def Pt_def Intersect_def Empty_def ZR_def sword)
  from ClearPixels_empty_clip
         [where region = "Rect 3 3 3 3" and G = example_graphics and i = example_image] h1
  have p: "ClearPixels example_graphics example_image (Rect 3 3 3 3) =
             Inl (Panic ''restorable: width/height must be positive'')"
    by blast
  from ClearPixels_empty_clip
         [where region = "Rect 20 20 30 30" and G = example_graphics and i = example_image] h2
  have q: "case ClearPixels example_graphics example_image (Rect 20 20 30 30) of
      Inl p \<Rightarrow> False
    | Inr i' \<Rightarrow>
        map dt_dstRegion (gc_draws (Image_ptr i')) = [Rect 0 0 16 16, ZR] \<and>
        dt_vertices (last (gc_draws (Image_ptr i'))) = replicate 32 0"
    by (simp add: example_image_fields)
       (simp add: example_graphics_def eval_nat_numeral)
  from NewImage_example h1 p h2 q show ?thesis by blast
qed

section \<open>NewImage\<close>

lemma InternalSize_screen: "InternalSize G (gc_NewImage w h True) = Inr (w, h)"
  by (simp add: InternalSize_def gc_NewImage_def)

lemma InternalSize_no_screen:
  "InternalSize G (gc_NewImage w h False) =
     (if w \<le>s 0 \<or> h \<le>s 0 then Inl (Panic ''graphics: x must be positive'')
      else Inr (InternalImageSize_of G w, InternalImageSize_of G h))"
  by (simp add: InternalSize_def InternalImageSize_def gc_NewImage_def)

lemma NewImage_size:
  "NewImage G w h screen = Inr i \<Longrightarrow> Image.width i = w \<and> Image.height i = h"
  by (auto simp: NewImage_def Let_def split: sum.splits)

text \<open>
  \<open>NewImage\<close> with width 0, height -5 and the screen flag set returns an image with
  exactly these dimensions; neither is positive.
\<close>

theorem NewImage_screen_nonpositive_counterexample:
  "(case NewImage example_graphics 0 (- 5) True of
      Inl p \<Rightarrow> False
    | Inr i \<Rightarrow>
        Image.width i = 0 \<and> Image.height i = - 5 \<and>
        \<not> 0 <s Image.width i \<and> \<not> 0 <s Image.height i)"
  by (simp add: NewImage_def InternalSize_screen Let_def sword)

text \<open>
  C3, as the code has it. Every image that \<open>NewImage\<close> returns has the width and
  the height it was given. For an image that is not a screen both are positive:
  with a width or a height that is not positive, \<open>NewImage\<close> panics with
  "graphics: x must be positive" where the internal size is computed and returns no
  image. With a positive width and height it returns an image.
\<close>

theorem NewImage_positive_unless_screen:
  "(NewImage G w h screen = Inr i \<longrightarrow>
      Image.width i = w \<and> Image.height i = h \<and>
      (\<not> screen \<longrightarrow> 0 <s Image.width i \<and> 0 <s Image.height i)) \<and>
   (\<not> screen \<and> (w \<le>s 0 \<or> h \<le>s 0) \<longrightarrow>
      NewImage G w h screen = Inl (Panic ''graphics: x must be positive'')) \<and>
   (0 <s w \<and> 0 <s h \<longrightarrow> (\<exists>i. NewImage G w h screen = Inr i))"
proof (intro conjI impI)
  assume r: "NewImage G w h screen = Inr i"
  from NewImage_size [OF r] show "Image.width i = w" "Image.height i = h"
    by simp_all
  assume "\<not> screen"
  with r have "\<not> (w \<le>s 0 \<or> h \<le>s 0)"
    by (auto simp: NewImage_def InternalSize_no_screen Let_def split: if_splits)
  with NewImage_size [OF r] show "0 <s Image.width i" "0 <s Image.height i"
    by (simp_all add: not_sle_iff)
next
  assume "\<not> screen \<and> (w \<le>s 0 \<or> h \<le>s 0)"
  then show "NewImage G w h screen = Inl (Panic ''graphics: x must be positive'')"
    by (auto simp: NewImage_def InternalSize_no_screen Let_def)
next
  assume "0 <s w \<and> 0 <s h"
  then have "\<not> (w \<le>s 0 \<or> h \<le>s 0)"
    by (simp add: not_sle_iff)
  then show "\<exists>i. NewImage G w h screen = Inr i"
    by (cases screen) (simp_all add: NewImage_def InternalSize_no_screen InternalSize_screen Let_def)
qed

theorem NewImage_positive_unless_screen_witness:
  "NewImage example_graphics 10 10 False = Inr example_image \<and>
   Image.width example_image = 10 \<and> Image.height example_image = 10 \<and>
   0 <s Image.width example_image \<and> 0 <s Image.height example_image \<and>
   ((0 :: goint) \<le>s 0 \<or> (- 5 :: goint) \<le>s 0) \<and>
   NewImage example_graphics 0 (- 5) False = Inl (Panic ''graphics: x must be positive'') \<and>
   (0 :: goint) <s 10"
proof -
  have h2: "\<not> False \<and> ((0 :: goint) \<le>s 0 \<or> (- 5 :: goint) \<le>s 0)"
    by (simp add: sword)
  have h3: "(0 :: goint) <s 10 \<and> (0 :: goint) <s 10"
    by (simp add: sword)
  from NewImage_positive_unless_screen
         [where G = example_graphics and w = 10 and h = 10 and screen = False
            and i = example_image] NewImage_example h3
  have a: "Image.width example_image = 10 \<and> Image.height example_image = 10 \<and>
           0 <s Image.width example_image \<and> 0 <s Image.height example_image"
    by blast
  from NewImage_positive_unless_screen
         [where G = example_graphics and w = 0 and h = "- 5" and screen = False] h2
  have b: "NewImage example_graphics 0 (- 5) False = Inl (Panic ''graphics: x must be positive'')"
    by blast
  from NewImage_example a h2 b h3 show ?thesis
    by blast
qed

lemma In_Rect_mono:
  "0 \<le>s w \<Longrightarrow> w \<le>s iw \<Longrightarrow> 0 \<le>s h \<Longrightarrow> h \<le>s ih \<Longrightarrow>
   In p (Rect 0 0 w h) \<Longrightarrow> In p (Rect 0 0 iw ih)"
  by (auto simp: In_def Rect_def Pt_def sword)

lemma ReadPixels_clear:
  "dt_blend call = BlendClear \<Longrightarrow>
   ReadPixels D px (g\<lparr>gc_draws := [call]\<rparr>) p =
     (if In p (dt_dstRegion call) then transparent else px p)"
  by (simp add: ReadPixels_def Flush_def exec_draw_def)

text \<open>
  C8. Where \<open>InternalSize\<close> panics, \<open>NewImage\<close> returns no image. Otherwise, with
  \<open>(iw, ih)\<close> the internal size, the image it returns has had exactly one draw
  queued, the clear draw (blend mode \<open>BlendClear\<close>, no sources, a quad with zero
  colours) over \<open>Rect(0, 0, iw, ih)\<close>, not over the width and height asked for.
  Read back, the image is fully transparent at every position of that rectangle,
  whatever the backing texture held before, and as it was everywhere else; where
  the internal size is not below the width and height, that covers the image itself
  and the padding around it. For a
  non-negative internal size the rectangle runs from (0, 0) to (iw, ih). For an
  image that is not a screen the internal size is \<open>InternalImageSize\<close> of the width
  and of the height.
\<close>

theorem NewImage_clears_internal_size:
  "(case InternalSize G (gc_NewImage w h screen) of
      Inl e \<Rightarrow> NewImage G w h screen = Inl e
    | Inr (iw, ih) \<Rightarrow>
        (let g = \<lparr>gc_width = w, gc_height = h, gc_screen = screen,
                   gc_draws =
               [\<lparr>dt_srcs = replicate (ShaderSrcImageCount G) None,
                 dt_vertices =
                   QuadVerticesFromDstAndSrc G
                     (replicate (4 * VertexFloatCount G) (float32 G 0))
                     (float32 G (sint (X (Min_pt (Rect 0 0 iw ih)))))
                     (float32 G (sint (Y (Min_pt (Rect 0 0 iw ih)))))
                     (float32 G (sint (X (Max_pt (Rect 0 0 iw ih)))))
                     (float32 G (sint (Y (Max_pt (Rect 0 0 iw ih)))))
                     (float32 G 0) (float32 G 0) (float32 G 0) (float32 G 0)
                     (float32 G 0) (float32 G 0) (float32 G 0) (float32 G 0),
                 dt_indices = QuadIndices G,
                 dt_blend = BlendClear,
                 dt_dstRegion = Rect 0 0 iw ih,
                 dt_srcRegions = replicate (ShaderSrcImageCount G) ZR,
                 dt_shader = clearShader_Shader G,
                 dt_uniforms = [],
                 dt_fillRule = FillRuleFillAll\<rparr>]\<rparr>
         in NewImage G w h screen = Inr \<lparr>Image_ptr = g, width = w, height = h\<rparr> \<and>
            (\<forall>p. In p (Rect 0 0 iw ih) \<longrightarrow> ReadPixels D px g p = transparent) \<and>
            (\<forall>p. \<not> In p (Rect 0 0 iw ih) \<longrightarrow> ReadPixels D px g p = px p) \<and>
            (0 \<le>s w \<and> w \<le>s iw \<and> 0 \<le>s h \<and> h \<le>s ih \<longrightarrow>
               (\<forall>p. In p (Rect 0 0 w h) \<longrightarrow> ReadPixels D px g p = transparent)) \<and>
            (0 \<le>s iw \<and> 0 \<le>s ih \<longrightarrow>
               Rect 0 0 iw ih = \<lparr>Min_pt = Pt 0 0, Max_pt = Pt iw ih\<rparr>))) \<and>
   (\<not> screen \<and> 0 <s w \<and> 0 <s h \<longrightarrow>
      InternalSize G (gc_NewImage w h screen) =
        Inr (InternalImageSize_of G w, InternalImageSize_of G h))"
proof (intro conjI impI)
  show "case InternalSize G (gc_NewImage w h screen) of
      Inl e \<Rightarrow> NewImage G w h screen = Inl e
    | Inr (iw, ih) \<Rightarrow>
        (let g = \<lparr>gc_width = w, gc_height = h, gc_screen = screen,
                   gc_draws =
               [\<lparr>dt_srcs = replicate (ShaderSrcImageCount G) None,
                 dt_vertices =
                   QuadVerticesFromDstAndSrc G
                     (replicate (4 * VertexFloatCount G) (float32 G 0))
                     (float32 G (sint (X (Min_pt (Rect 0 0 iw ih)))))
                     (float32 G (sint (Y (Min_pt (Rect 0 0 iw ih)))))
                     (float32 G (sint (X (Max_pt (Rect 0 0 iw ih)))))
                     (float32 G (sint (Y (Max_pt (Rect 0 0 iw ih)))))
                     (float32 G 0) (float32 G 0) (float32 G 0) (float32 G 0)
                     (float32 G 0) (float32 G 0) (float32 G 0) (float32 G 0),
                 dt_indices = QuadIndices G,
                 dt_blend = BlendClear,
                 dt_dstRegion = Rect 0 0 iw ih,
                 dt_srcRegions = replicate (ShaderSrcImageCount G) ZR,
                 dt_shader = clearShader_Shader G,
                 dt_uniforms = [],
                 dt_fillRule = FillRuleFillAll\<rparr>]\<rparr>
         in NewImage G w h screen = Inr \<lparr>Image_ptr = g, width = w, height = h\<rparr> \<and>
            (\<forall>p. In p (Rect 0 0 iw ih) \<longrightarrow> ReadPixels D px g p = transparent) \<and>
            (\<forall>p. \<not> In p (Rect 0 0 iw ih) \<longrightarrow> ReadPixels D px g p = px p) \<and>
            (0 \<le>s w \<and> w \<le>s iw \<and> 0 \<le>s h \<and> h \<le>s ih \<longrightarrow>
               (\<forall>p. In p (Rect 0 0 w h) \<longrightarrow> ReadPixels D px g p = transparent)) \<and>
            (0 \<le>s iw \<and> 0 \<le>s ih \<longrightarrow>
               Rect 0 0 iw ih = \<lparr>Min_pt = Pt 0 0, Max_pt = Pt iw ih\<rparr>))"
  proof (cases "InternalSize G (gc_NewImage w h screen)")
    case (Inl e)
    then show ?thesis
      by (simp add: NewImage_def Let_def)
  next
    case (Inr s)
    obtain iw ih where s: "s = (iw, ih)"
      by (cases s)
    have r: "0 \<le>s iw \<and> 0 \<le>s ih \<longrightarrow>
               Rect 0 0 iw ih = \<lparr>Min_pt = Pt 0 0, Max_pt = Pt iw ih\<rparr>"
      by (auto simp: Rect_def sword)
    have n: "NewImage G w h screen =
        Inr \<lparr>Image_ptr = \<lparr>gc_width = w, gc_height = h, gc_screen = screen,
                   gc_draws =
               [\<lparr>dt_srcs = replicate (ShaderSrcImageCount G) None,
                 dt_vertices =
                   QuadVerticesFromDstAndSrc G
                     (replicate (4 * VertexFloatCount G) (float32 G 0))
                     (float32 G (sint (X (Min_pt (Rect 0 0 iw ih)))))
                     (float32 G (sint (Y (Min_pt (Rect 0 0 iw ih)))))
                     (float32 G (sint (X (Max_pt (Rect 0 0 iw ih)))))
                     (float32 G (sint (Y (Max_pt (Rect 0 0 iw ih)))))
                     (float32 G 0) (float32 G 0) (float32 G 0) (float32 G 0)
                     (float32 G 0) (float32 G 0) (float32 G 0) (float32 G 0),
                 dt_indices = QuadIndices G,
                 dt_blend = BlendClear,
                 dt_dstRegion = Rect 0 0 iw ih,
                 dt_srcRegions = replicate (ShaderSrcImageCount G) ZR,
                 dt_shader = clearShader_Shader G,
                 dt_uniforms = [],
                 dt_fillRule = FillRuleFillAll\<rparr>]\<rparr>,
             width = w, height = h\<rparr>"
      using Inr s
      by (simp add: NewImage_def clearImage_def DrawTriangles_def Let_def)
         (simp add: gc_NewImage_def)
    from Inr s n r show ?thesis
      by (simp add: Let_def ReadPixels_clear [of _ D px "\<lparr>gc_width = w, gc_height = h,
            gc_screen = screen, gc_draws = []\<rparr>", simplified])
         (blast intro: In_Rect_mono)
  qed
next
  assume "\<not> screen \<and> 0 <s w \<and> 0 <s h"
  then show "InternalSize G (gc_NewImage w h screen) =
        Inr (InternalImageSize_of G w, InternalImageSize_of G h)"
    by (simp add: InternalSize_no_screen not_sle_iff [symmetric])
qed

theorem NewImage_clears_internal_size_witness:
  "NewImage example_graphics 10 10 False = Inr example_image \<and>
   InternalSize example_graphics (gc_NewImage 10 10 False) = Inr (16, 16) \<and>
   In (Pt 12 12) (Rect 0 0 16 16) \<and> \<not> In (Pt 12 12) (Rect 0 0 10 10) \<and>
   ReadPixels (\<lambda>call px. px) (\<lambda>p. (255, 255, 255, 255)) (Image_ptr example_image) (Pt 12 12) =
     transparent \<and>
   \<not> In (Pt 20 20) (Rect 0 0 16 16) \<and>
   ReadPixels (\<lambda>call px. px) (\<lambda>p. (255, 255, 255, 255)) (Image_ptr example_image) (Pt 20 20) =
     (255, 255, 255, 255) \<and>
   (0 :: goint) \<le>s 16 \<and>
   Rect 0 0 16 16 = \<lparr>Min_pt = Pt 0 0, Max_pt = Pt 16 16\<rparr> \<and>
   (0 :: goint) <s 10 \<and> (0 :: goint) \<le>s 10 \<and> (10 :: goint) \<le>s 16 \<and>
   In (Pt 3 4) (Rect 0 0 10 10) \<and>
   ReadPixels (\<lambda>call px. px) (\<lambda>p. (255, 255, 255, 255)) (Image_ptr example_image) (Pt 3 4) =
     transparent"
proof -
  have s: "InternalSize example_graphics (gc_NewImage 10 10 False) = Inr (16, 16)"
    by (simp add: InternalSize_no_screen sword) (simp add: example_graphics_def sword)
  have i: "In (Pt 12 12) (Rect 0 0 16 16)" "\<not> In (Pt 12 12) (Rect 0 0 10 10)"
    "\<not> In (Pt 20 20) (Rect 0 0 16 16)"
    by (simp_all add: In_def Rect_def Pt_def sword)
  have h: "(0 :: goint) \<le>s 16" "(0 :: goint) <s 10" "(0 :: goint) \<le>s 10" "(10 :: goint) \<le>s 16"
    by (simp_all add: sword)
  have j: "In (Pt 3 4) (Rect 0 0 10 10)"
    by (simp add: In_def Rect_def Pt_def sword)
  note t = NewImage_clears_internal_size
             [where G = example_graphics and w = 10 and h = 10 and screen = False
                and D = "\<lambda>call px. px" and px = "\<lambda>p. (255, 255, 255, 255)",
              unfolded s sum.case prod.case Let_def NewImage_example]
  from t obtain g where
    g: "(Inr example_image :: panic + int Image) = Inr \<lparr>Image_ptr = g, width = 10, height = 10\<rparr>"
      "\<forall>p. In p (Rect 0 0 16 16) \<longrightarrow>
         ReadPixels (\<lambda>call px. px) (\<lambda>p. (255, 255, 255, 255)) g p = transparent"
      "\<forall>p. \<not> In p (Rect 0 0 16 16) \<longrightarrow>
         ReadPixels (\<lambda>call px. px) (\<lambda>p. (255, 255, 255, 255)) g p = (255, 255, 255, 255)"
      "(0 :: goint) \<le>s 10 \<and> (10 :: goint) \<le>s 16 \<and> (0 :: goint) \<le>s 10 \<and> (10 :: goint) \<le>s 16 \<longrightarrow>
         (\<forall>p. In p (Rect 0 0 10 10) \<longrightarrow>
            ReadPixels (\<lambda>call px. px) (\<lambda>p. (255, 255, 255, 255)) g p = transparent)"
    by blast
  from g(1) have "example_image = \<lparr>Image_ptr = g, width = 10, height = 10\<rparr>"
    by (simp only: sum.inject)
  from arg_cong [OF this, of Image_ptr] have "Image_ptr example_image = g"
    by simp
  with g(2,3,4) i h j have "ReadPixels (\<lambda>call px. px) (\<lambda>p. (255, 255, 255, 255))
          (Image_ptr example_image) (Pt 12 12) = transparent \<and>
        ReadPixels (\<lambda>call px. px) (\<lambda>p. (255, 255, 255, 255)) (Image_ptr example_image)
          (Pt 20 20) = (255, 255, 255, 255) \<and>
        ReadPixels (\<lambda>call px. px) (\<lambda>p. (255, 255, 255, 255)) (Image_ptr example_image)
          (Pt 3 4) = transparent"
    by blast
  with NewImage_example s i h j Rect_16 show ?thesis
    by blast
qed

section \<open>Dimensions do not change\<close>

lemma ClearPixels_size:
  "ClearPixels G i r = Inr i' \<Longrightarrow> Image.width i' = Image.width i \<and> Image.height i' = Image.height i"
  by (auto simp: ClearPixels_def split: if_splits)

lemma ClearPixels_all_size:
  "ClearPixels_all G i rs = Inr i' \<Longrightarrow>
     Image.width i' = Image.width i \<and> Image.height i' = Image.height i"
proof (induction rs arbitrary: i)
  case Nil
  then show ?case by simp
next
  case (Cons r rs)
  then obtain j where j: "ClearPixels G i r = Inr j" and rest: "ClearPixels_all G j rs = Inr i'"
    by (auto split: sum.splits)
  from Cons.IH [OF rest] ClearPixels_size [OF j] show ?case by simp
qed

lemma ClearPixels_recovered_size:
  "Image.width (ClearPixels_recovered G i rs) = Image.width i \<and>
   Image.height (ClearPixels_recovered G i rs) = Image.height i"
proof (induction rs arbitrary: i)
  case Nil
  show ?case by simp
next
  case (Cons r rs)
  show ?case
  proof (cases "ClearPixels G i r")
    case (Inl p)
    with Cons.IH [of i] show ?thesis by simp
  next
    case (Inr j)
    with Cons.IH [of j] ClearPixels_size [OF Inr] show ?thesis by simp
  qed
qed

text \<open>The methods of a framebuffer, one by one and in sequence.\<close>

lemma stored_matrix_returned: "proMatrix f = Some p \<Longrightarrow> projectionMatrix E f = (p, f)"
  by (simp add: projectionMatrix_def)

lemma projectionMatrix_stores:
  "proMatrix (snd (projectionMatrix E f)) = Some (fst (projectionMatrix E f))"
  by (cases "proMatrix f") (simp_all add: projectionMatrix_def Let_def)

lemma projectionMatrix_fields:
  "native (snd (projectionMatrix E f)) = native f"
  "Framebuffer.width (snd (projectionMatrix E f)) = Framebuffer.width f"
  "Framebuffer.height (snd (projectionMatrix E f)) = Framebuffer.height f"
  "flipY (snd (projectionMatrix E f)) = flipY f"
  by (cases "proMatrix f"; simp add: projectionMatrix_def Let_def)+

lemma projectionMatrix_same_inputs:
  "proMatrix f = None \<Longrightarrow> proMatrix g = None \<Longrightarrow>
   Framebuffer.width g = Framebuffer.width f \<Longrightarrow> Framebuffer.height g = Framebuffer.height f \<Longrightarrow>
   flipY g = flipY f \<Longrightarrow>
   fst (projectionMatrix E g) = fst (projectionMatrix E f)"
  by (simp add: projectionMatrix_def Let_def)

lemma DrawTexture_framebuffer:
  "snd (snd (DrawTexture E c f t quads geo clr mode)) = f \<or>
   snd (snd (DrawTexture E c f t quads geo clr mode)) = snd (projectionMatrix E f)"
  by (auto simp: DrawTexture_def Let_def split: prod.splits option.splits)

lemma fb_step_framebuffer:
  "snd (fb_step E (c, f) op) = f \<or> snd (fb_step E (c, f) op) = snd (projectionMatrix E f)"
  using DrawTexture_framebuffer [of E c f] by (cases op) auto

lemma fb_step_fields:
  "native (snd (fb_step E (c, f) op)) = native f"
  "Framebuffer.width (snd (fb_step E (c, f) op)) = Framebuffer.width f"
  "Framebuffer.height (snd (fb_step E (c, f) op)) = Framebuffer.height f"
  "flipY (snd (fb_step E (c, f) op)) = flipY f"
  using fb_step_framebuffer [of E c f op] by (auto simp: projectionMatrix_fields)

lemma fb_step_cached:
  "proMatrix f = Some p \<Longrightarrow> proMatrix (snd (fb_step E (c, f) op)) = Some p"
  using fb_step_framebuffer [of E c f op] by (auto simp: stored_matrix_returned)

lemma fb_step_computed:
  "proMatrix f = None \<Longrightarrow>
   proMatrix (snd (fb_step E (c, f) op)) = None \<or>
   proMatrix (snd (fb_step E (c, f) op)) = Some (fst (projectionMatrix E f))"
  using fb_step_framebuffer [of E c f op] by (auto simp: projectionMatrix_stores)

lemma fb_run_Nil: "fb_run E s [] = s"
  by (simp add: fb_run_def)

lemma fb_run_Cons: "fb_run E (c, f) (op # ops) = fb_run E (fb_step E (c, f) op) ops"
  by (simp add: fb_run_def)

lemma fb_run_fields:
  "native (snd (fb_run E (c, f) ops)) = native f \<and>
   Framebuffer.width (snd (fb_run E (c, f) ops)) = Framebuffer.width f \<and>
   Framebuffer.height (snd (fb_run E (c, f) ops)) = Framebuffer.height f \<and>
   flipY (snd (fb_run E (c, f) ops)) = flipY f"
proof (induction ops arbitrary: c f)
  case Nil
  show ?case by (simp add: fb_run_Nil)
next
  case (Cons op ops)
  obtain c' f' where s: "fb_step E (c, f) op = (c', f')"
    by (cases "fb_step E (c, f) op")
  from fb_step_fields [of E c f op] s Cons.IH [of c' f'] show ?case
    by (simp add: fb_run_Cons)
qed

lemma fb_run_cached:
  "proMatrix f = Some p \<Longrightarrow> proMatrix (snd (fb_run E (c, f) ops)) = Some p"
proof (induction ops arbitrary: c f)
  case Nil
  then show ?case by (simp add: fb_run_Nil)
next
  case (Cons op ops)
  obtain c' f' where s: "fb_step E (c, f) op = (c', f')"
    by (cases "fb_step E (c, f) op")
  from fb_step_cached [OF Cons.prems, of E c op] s have "proMatrix f' = Some p"
    by simp
  from Cons.IH [OF this, of c'] s show ?case
    by (simp add: fb_run_Cons)
qed

lemma fb_run_computed:
  "proMatrix f = None \<Longrightarrow>
   fst (projectionMatrix E (snd (fb_run E (c, f) ops))) = fst (projectionMatrix E f)"
proof (induction ops arbitrary: c f)
  case Nil
  show ?case by (simp add: fb_run_Nil)
next
  case (Cons op ops)
  obtain c' f' where s: "fb_step E (c, f) op = (c', f')"
    by (cases "fb_step E (c, f) op")
  from fb_step_fields [of E c f op] s
  have fields: "Framebuffer.width f' = Framebuffer.width f"
    "Framebuffer.height f' = Framebuffer.height f" "flipY f' = flipY f"
    by simp_all
  from fb_step_computed [OF Cons.prems, of E c op] s
  consider "proMatrix f' = None" | "proMatrix f' = Some (fst (projectionMatrix E f))"
    by auto
  then show ?case
  proof cases
    case 1
    from Cons.IH [OF 1, of c'] projectionMatrix_same_inputs [OF Cons.prems 1 fields, of E] s
    show ?thesis by (simp add: fb_run_Cons)
  next
    case 2
    from fb_run_cached [OF 2, of E c' ops] s show ?thesis
      by (simp add: fb_run_Cons stored_matrix_returned)
  qed
qed

lemma example_backing_size:
  "NextPowerOf2Int32 100 = 128"
  "NextPowerOf2Int32 60 = 64"
  by (simp_all add: example_externals_def NextPowerOf2Int32_def Let_def)

lemma example_fields:
  "native example_framebuffer = 0" "flipY example_framebuffer"
  "proMatrix example_framebuffer = None"
  "Framebuffer.width example_framebuffer = 100" "Framebuffer.height example_framebuffer = 60"
  "calls (example_context b) = []"
  "float64 example_externals = FConst" "fdiv example_externals = FDiv"
  "fmul example_externals = FMul" "fadd example_externals = FAdd"
  "ZeroFramebuffer example_externals = 0"
  by (simp_all add: example_framebuffer_def example_context_def example_externals_def)

lemma example_projectionMatrix:
  "projectionMatrix example_externals example_framebuffer =
     (example_matrix, example_framebuffer\<lparr>proMatrix := Some example_matrix\<rparr>)"
  by (simp add: projectionMatrix_def orthoProjectionMatrix_def set_elem_def Let_def
        example_fields example_backing_size example_matrix_def)

text \<open>
  C4. An image returned by \<open>NewImage\<close> keeps the width and the height that were passed
  to \<open>NewImage\<close> through every run of \<open>ClearPixels\<close> calls, whether the run stops
  at the first panic or the caller recovers from each panic and goes on. A
  framebuffer keeps its \<open>Size\<close> through every sequence of \<open>Size\<close>, \<open>Dispose\<close>,
  \<open>setAsViewport\<close>, \<open>projectionMatrix\<close>, \<open>Fill\<close>, \<open>DrawTexture\<close> and \<open>Pixels\<close>
  calls, whatever the driver answers; for the framebuffer of \<open>NewZeroFramebuffer\<close>
  that is the size given, and for the one of \<open>NewFramebufferFromTexture\<close> the size
  of the texture.
\<close>

theorem dimensions_immutable:
  "(NewImage G w h screen = Inr i \<longrightarrow>
      (ClearPixels_all G i rs = Inr i' \<longrightarrow> Image.width i' = w \<and> Image.height i' = h) \<and>
      Image.width (ClearPixels_recovered G i rs') = w \<and>
      Image.height (ClearPixels_recovered G i rs') = h) \<and>
   Size (snd (fb_run E (c, f) ops)) = Size f \<and>
   (case NewZeroFramebuffer c0 w h of
      (Some f0, err) \<Rightarrow> Size (snd (fb_run E (c, f0) ops)) = (w, h)
    | (None, err) \<Rightarrow> False) \<and>
   (fst (fst (NewFramebufferFromTexture c0 texture)) = Some f1 \<longrightarrow>
      Size (snd (fb_run E (c, f1) ops)) = tex_size texture)"
proof (intro conjI impI)
  assume n: "NewImage G w h screen = Inr i"
  show "Image.width (ClearPixels_recovered G i rs') = w"
       "Image.height (ClearPixels_recovered G i rs') = h"
    using NewImage_size [OF n] by (simp_all add: ClearPixels_recovered_size)
  assume "ClearPixels_all G i rs = Inr i'"
  from ClearPixels_all_size [OF this] NewImage_size [OF n]
  show "Image.width i' = w" "Image.height i' = h"
    by simp_all
next
  show "Size (snd (fb_run E (c, f) ops)) = Size f"
    by (simp add: Size_def fb_run_fields)
next
  show "case NewZeroFramebuffer c0 w h of
      (Some f0, err) \<Rightarrow> Size (snd (fb_run E (c, f0) ops)) = (w, h)
    | (None, err) \<Rightarrow> False"
    by (simp add: NewZeroFramebuffer_def Size_def fb_run_fields)
next
  assume "fst (fst (NewFramebufferFromTexture c0 texture)) = Some f1"
  then have "Size f1 = tex_size texture"
    by (auto simp: NewFramebufferFromTexture_def Let_def Size_def
          split: prod.splits option.splits)
  then show "Size (snd (fb_run E (c, f1) ops)) = tex_size texture"
    by (simp add: Size_def fb_run_fields)
qed

theorem dimensions_immutable_witness:
  "NewImage example_graphics 10 10 False = Inr example_image \<and>
   (case ClearPixels_all example_graphics example_image [Rect 5 5 30 30, Rect 20 20 30 30] of
      Inl p \<Rightarrow> False
    | Inr i' \<Rightarrow> Image.width i' = 10 \<and> Image.height i' = 10) \<and>
   Image.width (ClearPixels_recovered example_graphics example_image
                  [Rect 3 3 3 3, Rect 5 5 30 30]) = 10 \<and>
   (case fst (fst (NewFramebufferFromTexture (example_context False) example_texture)) of
      None \<Rightarrow> False
    | Some f1 \<Rightarrow>
        Size (snd (fb_run example_externals (example_context False, f1)
                     [Op_Fill (65535, 0, 0, 65535), Op_DrawTexture example_texture 1 2 3 0,
                      Op_projectionMatrix, Op_Dispose])) = (100, 60))"
proof -
  have d: "\<not> (Dx (Rect 5 5 30 30) \<le>s 0 \<or> Dy (Rect 5 5 30 30) \<le>s 0)"
          "\<not> (Dx (Rect 20 20 30 30) \<le>s 0 \<or> Dy (Rect 20 20 30 30) \<le>s 0)"
    by (simp_all add: Rect_def Dx_def Dy_def Pt_def sword)
  obtain i' where r: "ClearPixels_all example_graphics example_image
           [Rect 5 5 30 30, Rect 20 20 30 30] = Inr i'"
    by (simp add: ClearPixels_def d)
  obtain f1 where t: "fst (fst (NewFramebufferFromTexture (example_context False) example_texture)) =
      Some f1"
    by (simp add: NewFramebufferFromTexture_def driver_call_def example_context_def
          example_texture_def Let_def)
  from dimensions_immutable
         [where G = example_graphics and w = 10 and h = 10 and screen = False
            and i = example_image
            and rs = "[Rect 5 5 30 30, Rect 20 20 30 30]" and i' = i'
            and rs' = "[Rect 3 3 3 3, Rect 5 5 30 30]"
            and E = example_externals and c = "example_context False" and f = f1 and ?f1.0 = f1
            and ops = "[Op_Fill (65535, 0, 0, 65535), Op_DrawTexture example_texture 1 2 3 0,
                        Op_projectionMatrix, Op_Dispose]"
            and ?c0.0 = "example_context False" and texture = example_texture]
       NewImage_example r t
  have "Image.width i' = 10 \<and> Image.height i' = 10 \<and>
        Image.width (ClearPixels_recovered example_graphics example_image
                       [Rect 3 3 3 3, Rect 5 5 30 30]) = 10 \<and>
        Size (snd (fb_run example_externals (example_context False, f1)
                     [Op_Fill (65535, 0, 0, 65535), Op_DrawTexture example_texture 1 2 3 0,
                      Op_projectionMatrix, Op_Dispose])) = tex_size example_texture"
    by blast
  with NewImage_example r t show ?thesis
    by (simp add: example_texture_def)
qed

section \<open>The backing size of a framebuffer\<close>

text \<open>
  What \<open>NextPowerOf2Int32\<close> computes. Each shift-and-or doubles the number of
  positions below a set bit of \<open>x - 1\<close> that are set, so after five of them every
  position at and below the highest set bit is set.
\<close>

lemma smear_step:
  fixes x y :: int32
  assumes x: "\<And>i. bit x i \<longleftrightarrow> (\<exists>j<m. bit y (i + j))"
    and msb: "\<not> bit y 31" and m: "0 < m"
  shows "bit (x OR signed_drop_bit m x) i \<longleftrightarrow> (\<exists>j<2 * m. bit y (i + j))"
proof -
  have hi: "\<not> bit y k" if "31 \<le> k" for k
    using that msb by (cases "k = 31") (auto dest: bit_imp_le_length)
  have x31: "\<not> bit x 31"
    using hi by (auto simp: x)
  have L: "LENGTH(32) = 32"
    by simp
  note raw = bit_signed_drop_bit_iff [of m x i, unfolded L]
  have sdb: "bit (signed_drop_bit m x) i \<longleftrightarrow> (\<exists>j<m. bit y (i + m + j))"
  proof (cases "i + m < 31")
    case True
    then have "\<not> (32 - m \<le> i \<and> i < 32)"
      by linarith
    with raw have "bit (signed_drop_bit m x) i \<longleftrightarrow> bit x (m + i)"
      by (simp only: if_False simp_thms)
    also have "\<dots> \<longleftrightarrow> (\<exists>j<m. bit y (m + i + j))"
      by (rule x)
    finally show ?thesis
      by (simp only: add.commute [of m i])
  next
    case False
    then have none: "\<not> (\<exists>j<m. bit y (i + m + j))"
      using hi by auto
    have "\<not> bit (signed_drop_bit m x) i"
    proof (cases "32 - m \<le> i \<and> i < 32")
      case True
      with raw have "bit (signed_drop_bit m x) i \<longleftrightarrow> bit x (32 - 1)"
        by (simp only: if_True simp_thms)
      with x31 show ?thesis by simp
    next
      case no: False
      with raw have "bit (signed_drop_bit m x) i \<longleftrightarrow> bit x (m + i)"
        by (simp only: if_False simp_thms)
      also have "\<dots> \<longleftrightarrow> (\<exists>j<m. bit y (m + i + j))"
        by (rule x)
      finally have "bit (signed_drop_bit m x) i \<longleftrightarrow> (\<exists>j<m. bit y (i + m + j))"
        by (simp only: add.commute [of m i])
      with none show ?thesis by simp
    qed
    with none show ?thesis by simp
  qed
  have "(\<exists>j<2 * m. bit y (i + j)) \<longleftrightarrow> (\<exists>j<m. bit y (i + j)) \<or> (\<exists>j<m. bit y (i + m + j))"
  proof
    assume "\<exists>j<2 * m. bit y (i + j)"
    then obtain j where j: "j < 2 * m" "bit y (i + j)" by blast
    show "(\<exists>j<m. bit y (i + j)) \<or> (\<exists>j<m. bit y (i + m + j))"
    proof (cases "j < m")
      case True
      with j show ?thesis by blast
    next
      case False
      with j have "j - m < m" "bit y (i + m + (j - m))" by simp_all
      then show ?thesis by blast
    qed
  next
    assume "(\<exists>j<m. bit y (i + j)) \<or> (\<exists>j<m. bit y (i + m + j))"
    then show "\<exists>j<2 * m. bit y (i + j)"
    proof
      assume "\<exists>j<m. bit y (i + j)"
      then obtain j where "j < m" "bit y (i + j)" by blast
      then have "j < 2 * m" "bit y (i + j)" by simp_all
      then show ?thesis by blast
    next
      assume "\<exists>j<m. bit y (i + m + j)"
      then obtain j where "j < m" "bit y (i + m + j)" by blast
      then have "m + j < 2 * m" "bit y (i + (m + j))" by (simp_all add: add.assoc)
      then show ?thesis by blast
    qed
  qed
  then show ?thesis
    by (simp add: bit_or_iff x sdb)
qed

lemma smear:
  fixes y :: int32
  assumes msb: "\<not> bit y 31"
  defines "x2 \<equiv> y OR signed_drop_bit 1 y"
  defines "x3 \<equiv> x2 OR signed_drop_bit 2 x2"
  defines "x4 \<equiv> x3 OR signed_drop_bit 4 x3"
  defines "x5 \<equiv> x4 OR signed_drop_bit 8 x4"
  defines "x6 \<equiv> x5 OR signed_drop_bit 16 x5"
  shows "bit x6 i \<longleftrightarrow> (\<exists>j<32. bit y (i + j))"
proof -
  have s1: "bit y i \<longleftrightarrow> (\<exists>j<1. bit y (i + j))" for i
    by simp
  have s2: "bit x2 i \<longleftrightarrow> (\<exists>j<2. bit y (i + j))" for i
    unfolding x2_def using smear_step [of y 1 y i, OF s1 msb] by simp
  have s3: "bit x3 i \<longleftrightarrow> (\<exists>j<4. bit y (i + j))" for i
    unfolding x3_def using smear_step [of x2 2 y i, OF s2 msb] by simp
  have s4: "bit x4 i \<longleftrightarrow> (\<exists>j<8. bit y (i + j))" for i
    unfolding x4_def using smear_step [of x3 4 y i, OF s3 msb] by simp
  have s5: "bit x5 i \<longleftrightarrow> (\<exists>j<16. bit y (i + j))" for i
    unfolding x5_def using smear_step [of x4 8 y i, OF s4 msb] by simp
  show ?thesis
    unfolding x6_def using smear_step [of x5 16 y i, OF s5 msb] by simp
qed

lemma int_high_bits_clear:
  fixes m :: int
  assumes "0 \<le> m" "m < 2 ^ n" "n \<le> i"
  shows "\<not> bit m i"
proof -
  from assms have "(2 :: int) ^ n \<le> 2 ^ i"
    by (intro power_increasing) simp_all
  with assms have "m < 2 ^ i"
    by linarith
  with assms have "m div 2 ^ i = 0"
    by (intro div_pos_pos_trivial)
  then show ?thesis
    by (simp add: bit_iff_odd)
qed

lemma int_top_bit_set:
  fixes m :: int
  assumes "2 ^ n \<le> m" "m < 2 ^ Suc n"
  shows "bit m n"
proof -
  have "m div 2 ^ n = 1"
  proof -
    have "m = 1 * 2 ^ n + (m - 2 ^ n)" by simp
    moreover from assms have "0 \<le> m - 2 ^ n" "m - 2 ^ n < 2 ^ n" by simp_all
    ultimately show ?thesis
      by (metis div_pos_pos_trivial add.commute add.right_neutral div_mult_self2
            zero_less_numeral zero_less_power less_irrefl mult.commute)
  qed
  then show ?thesis
    by (simp add: bit_iff_odd)
qed

lemma NextPowerOf2Int32_exp:
  fixes x :: int32
  assumes pos: "0 < sint x"
    and lo: "n = 0 \<or> 2 ^ (n - 1) \<le> sint x - 1"
    and hi: "sint x - 1 < 2 ^ n"
  shows "NextPowerOf2Int32 x = 2 ^ n"
proof -
  define m where "m = sint x - 1"
  have m0: "0 \<le> m" and m31: "m < 2 ^ 31"
    using pos sint_lt [of x] by (simp_all add: m_def)
  have y: "x - 1 = word_of_int m"
    by (simp add: m_def)
  have bity: "bit (x - 1) i \<longleftrightarrow> i < 32 \<and> bit m i" for i
    by (simp add: y bit_word_of_int_iff)
  have msb: "\<not> bit (x - 1) 31"
    using int_high_bits_clear [OF m0 m31, of 31] by (simp add: bity)
  have n31: "n \<le> 31"
  proof (rule ccontr)
    assume "\<not> n \<le> 31"
    then have "31 \<le> n - 1" "n \<noteq> 0" by simp_all
    then have "(2 :: int) ^ 31 \<le> 2 ^ (n - 1)"
      by (intro power_increasing) simp_all
    moreover from lo \<open>n \<noteq> 0\<close> have "2 ^ (n - 1) \<le> m"
      by (simp add: m_def)
    ultimately show False
      using m31 by linarith
  qed
  have "bit (((((x - 1 OR signed_drop_bit 1 (x - 1)) OR
            signed_drop_bit 2 (x - 1 OR signed_drop_bit 1 (x - 1))) OR
           signed_drop_bit 4 ((x - 1 OR signed_drop_bit 1 (x - 1)) OR
            signed_drop_bit 2 (x - 1 OR signed_drop_bit 1 (x - 1)))) OR
          signed_drop_bit 8 (((x - 1 OR signed_drop_bit 1 (x - 1)) OR
            signed_drop_bit 2 (x - 1 OR signed_drop_bit 1 (x - 1))) OR
           signed_drop_bit 4 ((x - 1 OR signed_drop_bit 1 (x - 1)) OR
            signed_drop_bit 2 (x - 1 OR signed_drop_bit 1 (x - 1))))) OR
         signed_drop_bit 16 ((((x - 1 OR signed_drop_bit 1 (x - 1)) OR
            signed_drop_bit 2 (x - 1 OR signed_drop_bit 1 (x - 1))) OR
           signed_drop_bit 4 ((x - 1 OR signed_drop_bit 1 (x - 1)) OR
            signed_drop_bit 2 (x - 1 OR signed_drop_bit 1 (x - 1)))) OR
          signed_drop_bit 8 (((x - 1 OR signed_drop_bit 1 (x - 1)) OR
            signed_drop_bit 2 (x - 1 OR signed_drop_bit 1 (x - 1))) OR
           signed_drop_bit 4 ((x - 1 OR signed_drop_bit 1 (x - 1)) OR
            signed_drop_bit 2 (x - 1 OR signed_drop_bit 1 (x - 1)))))) i
        \<longleftrightarrow> bit (mask n :: int32) i" (is "bit ?s i \<longleftrightarrow> _") for i
  proof -
    have "bit ?s i \<longleftrightarrow> (\<exists>j<32. bit (x - 1) (i + j))"
      by (rule smear [OF msb])
    also have "\<dots> \<longleftrightarrow> i < n"
    proof
      assume "\<exists>j<32. bit (x - 1) (i + j)"
      then obtain j where "bit m (i + j)"
        by (auto simp: bity)
      have "i + j < n"
      proof (rule ccontr)
        assume "\<not> i + j < n"
        then have "n \<le> i + j" by simp
        from int_high_bits_clear [OF m0 _ this] hi \<open>bit m (i + j)\<close> show False
          by (simp add: m_def)
      qed
      then show "i < n" by simp
    next
      assume i: "i < n"
      then have n: "n \<noteq> 0" "Suc (n - 1) = n" by simp_all
      with lo hi have "bit m (n - 1)"
        using int_top_bit_set [of "n - 1" m] by (simp add: m_def)
      moreover from i n31 have "i + (n - 1 - i) = n - 1" "n - 1 - i < 32" "n - 1 < 32"
        by simp_all
      ultimately have "n - 1 - i < 32 \<and> bit (x - 1) (i + (n - 1 - i))"
        by (simp add: bity)
      then show "\<exists>j<32. bit (x - 1) (i + j)"
        by blast
    qed
    also from n31 have "\<dots> \<longleftrightarrow> bit (mask n :: int32) i"
      by (auto simp: bit_mask_iff)
    finally show ?thesis .
  qed
  then have "?s = mask n"
    by (rule bit_eqI)
  then show ?thesis
    by (simp add: NextPowerOf2Int32_def Let_def mask_eq_exp_minus_1)
qed

lemma NextPowerOf2Int32_least:
  fixes x :: int32
  assumes pos: "0 <s x" and small: "x \<le>s 1073741824"
  shows "\<exists>n\<le>30. NextPowerOf2Int32 x = 2 ^ n \<and> sint x \<le> 2 ^ n \<and> 2 ^ n < 2 * sint x"
proof -
  define m where "m = sint x - 1"
  from pos small have k: "0 < sint x" "sint x \<le> 2 ^ 30"
    by (simp_all add: word_sless_alt word_sle_eq)
  then have m: "0 \<le> m" "m < 2 ^ 30"
    by (simp_all add: m_def)
  define n where "n = (LEAST n. m < 2 ^ n)"
  from m have hi: "m < 2 ^ n"
    unfolding n_def by (rule_tac LeastI [of _ 30]) simp
  from m have n30: "n \<le> 30"
    unfolding n_def by (intro Least_le) simp
  have lo: "n = 0 \<or> 2 ^ (n - 1) \<le> m"
  proof (cases "n = 0")
    case False
    then have "n - 1 < n" by simp
    then have "\<not> m < 2 ^ (n - 1)"
      unfolding n_def by (rule not_less_Least)
    then show ?thesis by simp
  qed simp
  from lo hi have eq: "NextPowerOf2Int32 x = 2 ^ n"
    using NextPowerOf2Int32_exp [OF k(1), of n] by (simp add: m_def)
  from hi have le: "sint x \<le> 2 ^ n"
    by (simp add: m_def)
  have lt: "2 ^ n < 2 * sint x"
  proof (cases "n = 0")
    case True
    with k show ?thesis by simp
  next
    case False
    then have "(2 :: int) ^ n = 2 * 2 ^ (n - 1)"
      by (cases n) simp_all
    with lo False show ?thesis
      by (simp add: m_def)
  qed
  from n30 eq le lt show ?thesis
    by blast
qed

lemma NextPowerOf2Int32_wraps:
  fixes x :: int32
  assumes big: "1073741824 <s x"
  shows "NextPowerOf2Int32 x = - 2147483648"
proof -
  from big have k: "2 ^ 30 < sint x"
    by (simp add: word_sless_alt)
  then have pos: "0 < sint x" by simp
  have "NextPowerOf2Int32 x = 2 ^ 31"
    using NextPowerOf2Int32_exp [OF pos, of 31] k sint_lt [of x] by simp
  then show ?thesis by simp
qed

text \<open>
  The conversions around \<open>NextPowerOf2Int32\<close>. Going from \<open>int32\<close> to \<open>int\<close> keeps
  the value, and so does going from \<open>int\<close> to \<open>int32\<close> for a value that fits. For
  a dimension from 1 to 2^30 the backing dimension is the least power of two that is
  not below it; above 2^30 it is below the dimension.
\<close>

lemma sint_scast_int32: "sint (scast (x :: int32) :: goint) = sint x"
  by (simp add: sint_up_scast is_up)

lemma sint_exp_int32: "n \<le> 30 \<Longrightarrow> sint (2 ^ n :: int32) = 2 ^ n"
proof -
  assume n: "n \<le> 30"
  have lo: "- (2 ^ 31) \<le> (2 :: int) ^ n"
    by (rule order_trans [of _ 0]) simp_all
  from n have hi: "(2 :: int) ^ n < 2 ^ 31"
    by (intro power_strict_increasing) simp_all
  have "signed_take_bit 31 ((2 :: int) ^ n) = 2 ^ n"
    by (rule signed_take_bit_int_eq_self [OF lo hi])
  moreover have "sint (2 ^ n :: int32) = sint (word_of_int (2 ^ n) :: int32)"
    by simp
  ultimately show ?thesis
    by (simp only: sint_sbintrunc') simp
qed

lemma sint_ucast_fits:
  fixes d :: goint
  assumes "- (2 ^ 31) \<le> sint d" "sint d < 2 ^ 31"
  shows "sint (ucast d :: int32) = sint d"
proof -
  have "(ucast d :: int32) = word_of_int (sint d)"
    by (rule bit_word_eqI) (auto simp: bit_simps)
  then have "sint (ucast d :: int32) = signed_take_bit 31 (sint d)"
    by (simp only: sint_sbintrunc') simp
  also from assms have "\<dots> = sint d"
    by (intro signed_take_bit_int_eq_self) simp_all
  finally show ?thesis .
qed

lemma backing_least:
  fixes d :: goint
  assumes pos: "0 <s d" and small: "d \<le>s 1073741824"
  shows "\<exists>n\<le>30. scast (NextPowerOf2Int32 (ucast d)) = (2 ^ n :: goint) \<and>
           sint d \<le> 2 ^ n \<and> 2 ^ n < 2 * sint d"
proof -
  from pos small have k: "0 < sint d" "sint d \<le> 2 ^ 30"
    by (simp_all add: word_sless_alt word_sle_eq)
  then have fit: "sint (ucast d :: int32) = sint d"
    by (intro sint_ucast_fits) simp_all
  with k have "0 <s (ucast d :: int32)" "(ucast d :: int32) \<le>s 1073741824"
    by (simp_all add: word_sless_alt word_sle_eq)
  from NextPowerOf2Int32_least [OF this] obtain n where n: "n \<le> 30"
    "NextPowerOf2Int32 (ucast d) = 2 ^ n" "sint d \<le> 2 ^ n" "2 ^ n < 2 * sint d"
    by (auto simp: fit)
  have "(scast (NextPowerOf2Int32 (ucast d)) :: goint) = word_of_int (sint (2 ^ n :: int32))"
    by (simp add: n)
  also have "\<dots> = 2 ^ n"
    by (simp add: sint_exp_int32 [OF n(1)])
  finally show ?thesis
    using n by blast
qed

lemma backing_wraps:
  fixes d :: goint
  assumes big: "1073741824 <s d"
  shows "scast (NextPowerOf2Int32 (ucast d)) <s d"
proof (cases "d <s 2147483648")
  case True
  with big have k: "2 ^ 30 < sint d" "sint d < 2 ^ 31"
    by (simp_all add: word_sless_alt)
  then have fit: "sint (ucast d :: int32) = sint d"
    by (intro sint_ucast_fits) simp_all
  with k have "1073741824 <s (ucast d :: int32)"
    by (simp add: word_sless_alt)
  then have "NextPowerOf2Int32 (ucast d) = - 2147483648"
    by (rule NextPowerOf2Int32_wraps)
  with k show ?thesis
    by (simp add: word_sless_alt sint_scast_int32)
next
  case False
  then have "2 ^ 31 \<le> sint d"
    by (simp add: word_sless_alt)
  moreover have "sint (NextPowerOf2Int32 (ucast d)) < 2 ^ 31"
    using sint_lt [of "NextPowerOf2Int32 (ucast d)"] by simp
  ultimately show ?thesis
    by (simp add: word_sless_alt sint_scast_int32)
qed

lemma backing_is_size_iff:
  fixes d :: goint
  assumes pos: "0 <s d" and small: "d \<le>s 1073741824"
  shows "scast (NextPowerOf2Int32 (ucast d)) = d \<longleftrightarrow> (\<exists>j\<le>30. d = 2 ^ j)"
proof
  assume "scast (NextPowerOf2Int32 (ucast d)) = d"
  with backing_least [OF pos small] show "\<exists>j\<le>30. d = 2 ^ j"
    by auto
next
  assume "\<exists>j\<le>30. d = 2 ^ j"
  then obtain j where j: "j \<le> 30" "d = 2 ^ j" by blast
  have lo: "- (2 ^ 63) \<le> (2 :: int) ^ j"
    by (rule order_trans [of _ 0]) simp_all
  from j have hi: "(2 :: int) ^ j < 2 ^ 63"
    by (intro power_strict_increasing) simp_all
  have "signed_take_bit 63 ((2 :: int) ^ j) = 2 ^ j"
    by (rule signed_take_bit_int_eq_self [OF lo hi])
  moreover have "sint d = sint (word_of_int (2 ^ j) :: goint)"
    by (simp add: j)
  ultimately have sd: "sint d = 2 ^ j"
    by (simp only: sint_sbintrunc') simp
  from backing_least [OF pos small] obtain n where n: "n \<le> 30"
    "scast (NextPowerOf2Int32 (ucast d)) = (2 ^ n :: goint)" "sint d \<le> 2 ^ n" "2 ^ n < 2 * sint d"
    by blast
  from n(3) sd have "j \<le> n"
    by simp
  moreover from n(4) sd have "(2 :: int) ^ n < 2 ^ Suc j"
    by simp
  then have "n < Suc j"
    by (simp only: power_strict_increasing_iff)
  ultimately have "n = j" by simp
  with n j show "scast (NextPowerOf2Int32 (ucast d)) = d" by simp
qed

lemma backing_ge:
  fixes d :: goint
  assumes pos: "0 <s d" and small: "d \<le>s 1073741824"
  shows "d \<le>s scast (NextPowerOf2Int32 (ucast d))"
proof -
  from backing_least [OF pos small] obtain n where n: "n \<le> 30"
    "scast (NextPowerOf2Int32 (ucast d)) = (2 ^ n :: goint)" "sint d \<le> 2 ^ n"
    by blast
  have lo: "- (2 ^ 63) \<le> (2 :: int) ^ n"
    by (rule order_trans [of _ 0]) simp_all
  from n have hi: "(2 :: int) ^ n < 2 ^ 63"
    by (intro power_strict_increasing) simp_all
  have "signed_take_bit 63 ((2 :: int) ^ n) = 2 ^ n"
    by (rule signed_take_bit_int_eq_self [OF lo hi])
  moreover have "sint (2 ^ n :: goint) = sint (word_of_int (2 ^ n) :: goint)"
    by simp
  ultimately have "sint (2 ^ n :: goint) = 2 ^ n"
    by (simp only: sint_sbintrunc') simp
  with n show ?thesis
    by (simp add: word_sle_eq)
qed

text \<open>
  \<open>NewZeroFramebuffer\<close> with a width of 2^31 and a height of 1 returns a framebuffer
  whose viewport is set with the width -2^31: the conversion to \<open>int32\<close> wraps, and
  what is passed to the driver is not a power of two at or above the width asked for.
  The same backing width comes out for the width 2^30 + 1, which fits \<open>int32\<close>, and
  the width 0 has the backing width 0.
\<close>

theorem backing_size_below_width_counterexample:
  "fst (NewZeroFramebuffer (example_context False) 2147483648 1) = Some wide_framebuffer \<and>
   setAsViewport example_externals (example_context False) wide_framebuffer =
     (None, (example_context False)\<lparr>calls := [SetViewport 0 (- 2147483648) 1]\<rparr>) \<and>
   (- 2147483648 :: goint) <s Framebuffer.width wide_framebuffer \<and>
   scast (NextPowerOf2Int32 (ucast (1073741825 :: goint))) = (- 2147483648 :: goint) \<and>
   scast (NextPowerOf2Int32 (ucast (0 :: goint))) = (0 :: goint)"
  by (simp add: NewZeroFramebuffer_def wide_framebuffer_def setAsViewport_def driver_call_def
        example_context_def example_externals_def NextPowerOf2Int32_def Let_def sword)

text \<open>
  C5, as the code has it. With \<open>W\<close> and \<open>H\<close> the results of \<open>NextPowerOf2Int32\<close> on
  the width and the height of the framebuffer, converted to \<open>int32\<close> and back:
  \<open>setAsViewport\<close> makes the single driver call \<open>SetViewport(native, W, H)\<close>,
  \<open>Pixels\<close> the single call \<open>FramebufferPixels(native, W, H)\<close>, and the matrix
  that \<open>projectionMatrix\<close> returns, at any moment in the life of a framebuffer
  that started without one, is the orthographic matrix of the rectangle from (0, 0)
  to (W, H). When \<open>flipY\<close> is set the second row is negated and shifted by twice
  the quotient of the height and \<open>NextPowerOf2Int32\<close> of the height; this is the
  only entry in which the height itself occurs. For a dimension \<open>d\<close> from 1 to 2^30
  the backing dimension is the next power of two at or above \<open>d\<close>: a power of two,
  not below \<open>d\<close> and below twice \<open>d\<close>, hence \<open>d\<close> itself only when \<open>d\<close> is a
  power of two. For a dimension above 2^30 the backing dimension is below \<open>d\<close>.
\<close>

theorem backing_size_is_NextPowerOf2:
  "(let W = scast (NextPowerOf2Int32 (ucast (Framebuffer.width f)));
        H = scast (NextPowerOf2Int32 (ucast (Framebuffer.height f)));
        fW = float64 E (sint W); fH = float64 E (sint H);
        zero = float64 E 0; one = float64 E 1; two = float64 E 2; neg = float64 E (- 1);
        e11 = fdiv E two fW; e14 = fdiv E (fmul E neg fW) fW;
        e22 = fdiv E two fH; e24 = fdiv E (fmul E neg fH) fH
    in
      setAsViewport E c f =
        (err_of c (calls c) (SetViewport (native f) W H),
         c\<lparr>calls := calls c @ [SetViewport (native f) W H]\<rparr>) \<and>
      Pixels E c f =
        ((pixels_of c (calls c) (FramebufferPixels (native f) W H),
          err_of c (calls c) (FramebufferPixels (native f) W H)),
         c\<lparr>calls := calls c @ [FramebufferPixels (native f) W H]\<rparr>) \<and>
      (proMatrix f = None \<longrightarrow>
         fst (projectionMatrix E (snd (fb_run E (c', f) ops))) =
            [[e11, zero, zero, e14],
             [zero, if flipY f then fmul E e22 neg else e22, zero,
              if flipY f
              then fadd E e24
                     (fmul E
                        (fdiv E (float64 E (sint (Framebuffer.height f)))
                           (float64 E (sint (NextPowerOf2Int32 (ucast (Framebuffer.height f))))))
                        two)
              else e24],
             [zero, zero, one, zero],
             [zero, zero, zero, one]])) \<and>
   (0 <s (d :: goint) \<and> d \<le>s 1073741824 \<longrightarrow>
      (\<exists>n\<le>30. scast (NextPowerOf2Int32 (ucast d)) = (2 ^ n :: goint) \<and>
               sint d \<le> 2 ^ n \<and> 2 ^ n < 2 * sint d) \<and>
      d \<le>s scast (NextPowerOf2Int32 (ucast d)) \<and>
      ((scast (NextPowerOf2Int32 (ucast d)) = d) = (\<exists>j\<le>30. d = 2 ^ j))) \<and>
   (1073741824 <s d \<longrightarrow> scast (NextPowerOf2Int32 (ucast d)) <s d)"
proof -
  have m: "proMatrix f = None \<Longrightarrow> fst (projectionMatrix E f) =
     (let W = scast (NextPowerOf2Int32 (ucast (Framebuffer.width f))) :: goint;
        H = scast (NextPowerOf2Int32 (ucast (Framebuffer.height f))) :: goint;
        fW = float64 E (sint W); fH = float64 E (sint H);
        zero = float64 E 0; one = float64 E 1; two = float64 E 2; neg = float64 E (- 1);
        e11 = fdiv E two fW; e14 = fdiv E (fmul E neg fW) fW;
        e22 = fdiv E two fH; e24 = fdiv E (fmul E neg fH) fH
      in [[e11, zero, zero, e14],
             [zero, if flipY f then fmul E e22 neg else e22, zero,
              if flipY f
              then fadd E e24
                     (fmul E
                        (fdiv E (float64 E (sint (Framebuffer.height f)))
                           (float64 E (sint (NextPowerOf2Int32 (ucast (Framebuffer.height f))))))
                        two)
              else e24],
             [zero, zero, one, zero],
             [zero, zero, zero, one]])"
    by (simp add: projectionMatrix_def orthoProjectionMatrix_def set_elem_def Let_def)
  have r: "0 <s d \<and> d \<le>s 1073741824 \<Longrightarrow>
      (\<exists>n\<le>30. scast (NextPowerOf2Int32 (ucast d)) = (2 ^ n :: goint) \<and>
               sint d \<le> 2 ^ n \<and> 2 ^ n < 2 * sint d) \<and>
      d \<le>s scast (NextPowerOf2Int32 (ucast d)) \<and>
      ((scast (NextPowerOf2Int32 (ucast d)) = d) = (\<exists>j\<le>30. d = 2 ^ j))"
    using backing_least [of d] backing_ge [of d] backing_is_size_iff [of d] by blast
  show ?thesis
    apply (simp only: Let_def)
    apply (intro conjI impI)
        apply (simp add: setAsViewport_def driver_call_def Let_def)
       apply (simp add: Pixels_def Size_def driver_call_def Let_def)
        apply (simp only: fb_run_computed)
        apply (simp only: m Let_def)
       apply (drule r, blast)
      apply (drule r, blast)
     apply (drule r, blast)
    apply (erule backing_wraps)
    done
qed

theorem backing_size_is_NextPowerOf2_witness:
  "proMatrix example_framebuffer = None \<and>
   calls (snd (setAsViewport example_externals (example_context False) example_framebuffer)) =
     [SetViewport 0 128 64] \<and>
   calls (snd (Pixels example_externals (example_context False) example_framebuffer)) =
     [FramebufferPixels 0 128 64] \<and>
   fst (projectionMatrix example_externals
          (snd (fb_run example_externals (example_context False, example_framebuffer)
                  [Op_Fill (65535, 0, 0, 65535), Op_projectionMatrix, Op_Dispose]))) =
     example_matrix \<and>
   (0 :: goint) <s 100 \<and> (100 :: goint) \<le>s 1073741824 \<and>
   scast (NextPowerOf2Int32 (ucast (100 :: goint))) = (2 ^ 7 :: goint) \<and>
   (100 :: goint) \<le>s scast (NextPowerOf2Int32 (ucast (100 :: goint))) \<and>
   scast (NextPowerOf2Int32 (ucast (100 :: goint))) \<noteq> (100 :: goint) \<and>
   (1073741824 :: goint) <s 2147483648 \<and>
   scast (NextPowerOf2Int32 (ucast (2147483648 :: goint))) <s (2147483648 :: goint)"
proof -
  have h: "proMatrix example_framebuffer = None"
    by (simp add: example_fields)
  have small: "(0 :: goint) <s 100 \<and> (100 :: goint) \<le>s 1073741824"
    by (simp add: sword)
  have wide: "(1073741824 :: goint) <s 2147483648"
    by (simp add: sword)
  have v: "scast (NextPowerOf2Int32 (ucast (100 :: goint))) = (2 ^ 7 :: goint)"
    by (simp add: example_backing_size)
  from backing_size_is_NextPowerOf2
         [where E = example_externals and f = example_framebuffer
            and c = "example_context False" and c' = "example_context False"
            and ops = "[Op_Fill (65535, 0, 0, 65535), Op_projectionMatrix, Op_Dispose]"
            and d = 100] h
  have ops: "calls (snd (setAsViewport example_externals (example_context False)
                             example_framebuffer)) = [SetViewport 0 128 64] \<and>
    calls (snd (Pixels example_externals (example_context False) example_framebuffer)) =
      [FramebufferPixels 0 128 64] \<and>
    fst (projectionMatrix example_externals
          (snd (fb_run example_externals (example_context False, example_framebuffer)
                  [Op_Fill (65535, 0, 0, 65535), Op_projectionMatrix, Op_Dispose]))) =
      example_matrix"
    by (simp add: Let_def example_fields example_backing_size example_matrix_def)
  from backing_size_is_NextPowerOf2
         [where E = example_externals and f = example_framebuffer
            and c = "example_context False" and c' = "example_context False"
            and ops = "[]" and d = 100] small
  have ge: "(100 :: goint) \<le>s scast (NextPowerOf2Int32 (ucast (100 :: goint)))"
    by blast
  have ne: "scast (NextPowerOf2Int32 (ucast (100 :: goint))) \<noteq> (100 :: goint)"
    by (simp add: example_backing_size)
  from backing_size_is_NextPowerOf2
         [where E = example_externals and f = example_framebuffer
            and c = "example_context False" and c' = "example_context False"
            and ops = "[]" and d = 2147483648] wide
  have big: "scast (NextPowerOf2Int32 (ucast (2147483648 :: goint))) <s
             (2147483648 :: goint)"
    by blast
  from h small wide v ops ge ne big show ?thesis
    by blast
qed

section \<open>Errors of the driver\<close>

text \<open>
  C6. When \<open>SetViewport\<close> returns an error, \<open>setAsViewport\<close> returns it, and \<open>Fill\<close>
  and \<open>DrawTexture\<close> return that same error having made no other driver call:
  no \<open>FillFramebuffer\<close>, no draw, no second \<open>SetViewport\<close>, and \<open>DrawTexture\<close>
  leaves the framebuffer as it was. When \<open>SetViewport\<close> succeeds, each makes
  exactly one more call, \<open>FillFramebuffer\<close> or the draw, and returns whatever that
  call returns.
\<close>

theorem driver_failure_propagates:
  "(let sv = SetViewport (native f)
               (scast (NextPowerOf2Int32 (ucast (Framebuffer.width f))))
               (scast (NextPowerOf2Int32 (ucast (Framebuffer.height f))));
        ff = FillFramebuffer
               (fdiv E (float64 E (uint cr)) (float64 E 65535))
               (fdiv E (float64 E (uint cg)) (float64 E 65535))
               (fdiv E (float64 E (uint cb)) (float64 E 65535))
               (fdiv E (float64 E (uint ca)) (float64 E 65535));
        dt = drawTexture (tex_native t) (fst (projectionMatrix E f)) quads geo clr mode
    in
      (err_of c (calls c) sv = Some e \<longrightarrow>
         setAsViewport E c f = (Some e, c\<lparr>calls := calls c @ [sv]\<rparr>) \<and>
         Fill E c f (cr, cg, cb, ca) = (Some e, c\<lparr>calls := calls c @ [sv]\<rparr>) \<and>
         DrawTexture E c f t quads geo clr mode = (Some e, c\<lparr>calls := calls c @ [sv]\<rparr>, f)) \<and>
      (err_of c (calls c) sv = None \<longrightarrow>
         Fill E c f (cr, cg, cb, ca) =
           (err_of c (calls c @ [sv]) ff, c\<lparr>calls := calls c @ [sv, ff]\<rparr>) \<and>
         DrawTexture E c f t quads geo clr mode =
           (err_of c (calls c @ [sv]) dt, c\<lparr>calls := calls c @ [sv, dt]\<rparr>,
            snd (projectionMatrix E f))))"
  by (simp add: Let_def Fill_def DrawTexture_def setAsViewport_def driver_call_def
        split: prod.splits)

theorem driver_failure_propagates_witness:
  "err_of (example_context True) (calls (example_context True)) (SetViewport 0 128 64) =
     Some (Error ''context lost'') \<and>
   Fill example_externals (example_context True) example_framebuffer (65535, 0, 0, 65535) =
     (Some (Error ''context lost''), (example_context True)\<lparr>calls := [SetViewport 0 128 64]\<rparr>) \<and>
   DrawTexture example_externals (example_context True) example_framebuffer example_texture 1 2 3 0 =
     (Some (Error ''context lost''), (example_context True)\<lparr>calls := [SetViewport 0 128 64]\<rparr>,
      example_framebuffer) \<and>
   err_of (example_context False) (calls (example_context False)) (SetViewport 0 128 64) = None \<and>
   Fill example_externals (example_context False) example_framebuffer (65535, 0, 0, 65535) =
     (None, (example_context False)\<lparr>calls :=
        [SetViewport 0 128 64,
         FillFramebuffer (FDiv (FConst 65535) (FConst 65535)) (FDiv (FConst 0) (FConst 65535))
           (FDiv (FConst 0) (FConst 65535)) (FDiv (FConst 65535) (FConst 65535))]\<rparr>) \<and>
   calls (fst (snd (DrawTexture example_externals (example_context False) example_framebuffer
                      example_texture 1 2 3 0))) =
     [SetViewport 0 128 64, drawTexture 3 example_matrix 1 2 3 0]"
proof -
  have h1: "err_of (example_context True) (calls (example_context True)) (SetViewport 0 128 64) =
     Some (Error ''context lost'')"
    by (simp add: example_context_def)
  have h2: "err_of (example_context False) (calls (example_context False)) (SetViewport 0 128 64) =
     None"
    by (simp add: example_context_def)
  have m: "fst (projectionMatrix example_externals example_framebuffer) = example_matrix"
    by (simp add: example_projectionMatrix)
  have e: "err_of (example_context False) [SetViewport 0 128 64] k = None" for k
    by (simp add: example_context_def split: call.splits)
  from driver_failure_propagates
         [of example_framebuffer example_externals 65535 0 0 65535 example_texture 1 2 3 0
             "example_context True" "Error ''context lost''"]
       driver_failure_propagates
         [of example_framebuffer example_externals 65535 0 0 65535 example_texture 1 2 3 0
             "example_context False" "Error ''context lost''"]
       h1 h2
  show ?thesis
    by (simp add: Let_def example_fields example_backing_size m e example_texture_def)
qed

section \<open>The cached projection matrix\<close>

text \<open>
  C9. After a call of \<open>projectionMatrix\<close> the matrix it returned is stored in the
  framebuffer; a second call returns the same matrix and changes nothing; so does a
  call after any sequence of other method calls. A framebuffer that holds a matrix
  returns it whatever the package's functions would compute now: nothing is
  recomputed. The driver is handed the matrix by \<open>DrawTexture\<close> and is taken not
  to write to it.
\<close>

theorem projectionMatrix_cached:
  "proMatrix (snd (projectionMatrix E f)) = Some (fst (projectionMatrix E f)) \<and>
   projectionMatrix E (snd (projectionMatrix E f)) =
     (fst (projectionMatrix E f), snd (projectionMatrix E f)) \<and>
   projectionMatrix E (snd (fb_run E (c, snd (projectionMatrix E f)) ops)) =
     (fst (projectionMatrix E f), snd (fb_run E (c, snd (projectionMatrix E f)) ops)) \<and>
   (proMatrix f = Some p \<longrightarrow> projectionMatrix E' f = (p, f))"
  by (simp add: projectionMatrix_stores stored_matrix_returned fb_run_cached)

theorem projectionMatrix_cached_witness:
  "proMatrix (snd (projectionMatrix example_externals example_framebuffer)) = Some example_matrix \<and>
   projectionMatrix example_externals (snd (projectionMatrix example_externals example_framebuffer)) =
     (example_matrix, example_framebuffer\<lparr>proMatrix := Some example_matrix\<rparr>)"
proof -
  note m = example_projectionMatrix
  from m have h: "proMatrix (snd (projectionMatrix example_externals example_framebuffer)) =
                  Some example_matrix"
    by simp
  from projectionMatrix_cached
         [where f = "snd (projectionMatrix example_externals example_framebuffer)"
            and p = example_matrix and E' = example_externals and E = example_externals
            and c = "example_context False" and ops = "[]"] h m
  show ?thesis by simp
qed

section \<open>Dispose\<close>

text \<open>
  C10. \<open>Dispose\<close> makes exactly one driver call, \<open>DeleteFramebuffer\<close> of the
  framebuffer's handle, when that handle is not \<open>ZeroFramebuffer\<close>, and no driver
  call when it is. \<open>NewZeroFramebuffer\<close> always returns a framebuffer and a nil
  error; its handle is the zero value, so where \<open>ZeroFramebuffer\<close> is the zero
  handle, disposing of it leaves the driver untouched.
\<close>

theorem Dispose_spares_default_framebuffer:
  "(native f \<noteq> ZeroFramebuffer E \<longrightarrow>
      Dispose E c f = c\<lparr>calls := calls c @ [DeleteFramebuffer (native f)]\<rparr>) \<and>
   (native f = ZeroFramebuffer E \<longrightarrow> Dispose E c f = c) \<and>
   NewZeroFramebuffer c w h =
     (Some \<lparr>native = 0, width = w, height = h, flipY = True, proMatrix = None\<rparr>, None) \<and>
   (ZeroFramebuffer E = 0 \<longrightarrow>
      (case NewZeroFramebuffer c w h of
         (Some f0, None) \<Rightarrow> Dispose E c f0 = c
       | _ \<Rightarrow> False))"
  by (simp add: Dispose_def NewZeroFramebuffer_def driver_call_def)

theorem Dispose_spares_default_framebuffer_witness:
  "native (example_framebuffer\<lparr>native := 5\<rparr>) \<noteq> ZeroFramebuffer example_externals \<and>
   Dispose example_externals (example_context False) (example_framebuffer\<lparr>native := 5\<rparr>) =
     (example_context False)\<lparr>calls := [DeleteFramebuffer 5]\<rparr> \<and>
   native example_framebuffer = ZeroFramebuffer example_externals \<and>
   Dispose example_externals (example_context False) example_framebuffer = example_context False \<and>
   ZeroFramebuffer example_externals = 0 \<and>
   fst (NewZeroFramebuffer (example_context False) 100 60) = Some example_framebuffer \<and>
   snd (NewZeroFramebuffer (example_context False) 100 60) = None"
proof -
  have h1: "native (example_framebuffer\<lparr>native := 5\<rparr>) \<noteq> ZeroFramebuffer example_externals"
    by (simp add: example_fields)
  have h2: "native example_framebuffer = ZeroFramebuffer example_externals"
    by (simp add: example_fields)
  have h3: "ZeroFramebuffer example_externals = 0"
    by (simp add: example_fields)
  from Dispose_spares_default_framebuffer
         [of "example_framebuffer\<lparr>native := 5\<rparr>" example_externals "example_context False" 100 60]
       Dispose_spares_default_framebuffer
         [of example_framebuffer example_externals "example_context False" 100 60]
       h1 h2 h3
  show ?thesis
    by (simp add: example_fields example_framebuffer_def)
qed

end
